theory Spec2Isabelle
  imports Main "HOL-Library.Sublist"
begin

section \<open>Values, tables and errors\<close>

text \<open>
  A Python \<open>str\<close> is a sequence of Unicode code points, so a string is a list of natural
  numbers; \<open>ustr\<close> writes an ASCII literal as such a list. Encoded bytes are lists of
  numbers below 256.
\<close>

type_synonym ustring = "nat list"

definition ustr :: "string \<Rightarrow> ustring" where
  "ustr s = map of_char s"

text \<open>
  A cell of a DataFrame: missing (NaN, None and NaT alike), a string, a number, or a
  pandas Timestamp, of which the program only ever reads \<open>day\<close>, \<open>month\<close> and \<open>year\<close>.
\<close>

datatype timestamp = Timestamp (year: int) (month: int) (day: int)

datatype val = Absent | Str ustring | Num int | Fecha timestamp

fun isinstance_str :: "val \<Rightarrow> bool" where
  "isinstance_str (Str s) = True"
| "isinstance_str v = False"

text \<open>
  A DataFrame: the column labels in order, and the rows in order, each with its index
  label. Labels of columns may repeat (pandas allows it, and renaming can produce it).
\<close>

record table =
  columns :: "ustring list"
  rows :: "(nat \<times> val list) list"

definition wf_table :: "table \<Rightarrow> bool" where
  "wf_table df = list_all (\<lambda>ir. length (snd ir) = length (columns df)) (rows df)"

datatype error =
    UnicodeEncodeError
  | UnicodeDecodeError
  | AttributeError
  | KeyError
  | ValueError string
  | RequestException
  | ParserError

text \<open>
  What the program calls in \<open>unicodedata\<close>, \<open>str\<close> and pandas and what no file of the
  repository defines is a parameter of the model: NFKD normalisation, the canonical
  combining class, \<open>str.lower\<close>, \<open>str.isspace\<close> (which \<open>str.strip\<close> uses),
  \<open>pd.to_datetime\<close> with \<open>errors='coerce'\<close> on a column (\<open>None\<close> is NaT),
  \<open>DataFrame.sample\<close> as a function of the row count, the seed and the frame, and
  \<open>Series.value_counts\<close>.
\<close>

record library =
  normalize_NFKD :: "ustring \<Rightarrow> ustring"
  combining :: "nat \<Rightarrow> nat"
  lower :: "ustring \<Rightarrow> ustring"
  isspace :: "nat \<Rightarrow> bool"
  to_datetime :: "val list \<Rightarrow> timestamp option list"
  sample :: "nat \<Rightarrow> nat \<Rightarrow> table \<Rightarrow> table"
  value_counts :: "val list \<Rightarrow> (val \<times> nat) list"

text \<open>
  What pandas promises of \<open>pd.to_datetime\<close> on a column: one result for each value, and
  every Timestamp has a month from 1 to 12.
\<close>

definition to_datetime_ok :: "library \<Rightarrow> bool" where
  "to_datetime_ok L =
     (\<forall>s. length (to_datetime L s) = length s
          \<and> list_all (\<lambda>x. case x of None \<Rightarrow> True | Some t \<Rightarrow> 1 \<le> month t \<and> month t \<le> 12)
               (to_datetime L s))"

section \<open>Column access\<close>

text \<open>
  \<open>df[c]\<close> for a label that occurs once: the values of that column, row by row.
  \<open>df[c] = vs\<close> overwrites every column labelled \<open>c\<close>, or appends a new last column
  when there is none.
\<close>

definition getitem :: "table \<Rightarrow> ustring \<Rightarrow> val list" where
  "getitem df c =
     map (\<lambda>ir. case map_of (zip (columns df) (snd ir)) c of Some v \<Rightarrow> v | None \<Rightarrow> Absent)
       (rows df)"

definition setitem :: "table \<Rightarrow> ustring \<Rightarrow> val list \<Rightarrow> table" where
  "setitem df c vs =
     (if c \<in> set (columns df) then
        df\<lparr>rows := map2 (\<lambda>ir v. (fst ir, map2 (\<lambda>c' x. if c' = c then v else x) (columns df) (snd ir)))
                      (rows df) vs\<rparr>
      else
        df\<lparr>columns := columns df @ [c],
           rows := map2 (\<lambda>ir v. (fst ir, snd ir @ [v])) (rows df) vs\<rparr>)"

text \<open>\<open>Series.apply(f)\<close>: \<open>f\<close> on every value in order; the first exception ends it.\<close>

fun apply_series :: "('a \<Rightarrow> error + 'b) \<Rightarrow> 'a list \<Rightarrow> error + 'b list" where
  "apply_series f [] = Inr []"
| "apply_series f (x # xs) =
     (case f x of
        Inl e \<Rightarrow> Inl e
      | Inr y \<Rightarrow> (case apply_series f xs of Inl e \<Rightarrow> Inl e | Inr ys \<Rightarrow> Inr (y # ys)))"

section \<open>limpiar_datos: repairing the encoding\<close>

definition encode_latin1 :: "ustring \<Rightarrow> error + nat list" where
  "encode_latin1 s = (if list_all (\<lambda>c. c < 256) s then Inr s else Inl UnicodeEncodeError)"

definition cont :: "nat \<Rightarrow> bool" where
  "cont b = (128 \<le> b \<and> b < 192)"

text \<open>
  The strict UTF-8 decoder: shortest form only, no surrogates, nothing above U+10FFFF.
\<close>

fun decode_utf8 :: "nat list \<Rightarrow> error + ustring" where
  "decode_utf8 [] = Inr []"
| "decode_utf8 (b0 # bs) =
     (if b0 < 128 then
        (case decode_utf8 bs of Inl e \<Rightarrow> Inl e | Inr cs \<Rightarrow> Inr (b0 # cs))
      else if 194 \<le> b0 \<and> b0 < 224 then
        (case bs of
           b1 # r \<Rightarrow>
             if cont b1 then
               (case decode_utf8 r of
                  Inl e \<Rightarrow> Inl e
                | Inr cs \<Rightarrow> Inr (((b0 - 192) * 64 + (b1 - 128)) # cs))
             else Inl UnicodeDecodeError
         | _ \<Rightarrow> Inl UnicodeDecodeError)
      else if 224 \<le> b0 \<and> b0 < 240 then
        (case bs of
           b1 # b2 # r \<Rightarrow>
             if (if b0 = 224 then 160 \<le> b1 \<and> b1 < 192
                 else if b0 = 237 then 128 \<le> b1 \<and> b1 < 160
                 else cont b1) \<and> cont b2 then
               (case decode_utf8 r of
                  Inl e \<Rightarrow> Inl e
                | Inr cs \<Rightarrow>
                    Inr (((b0 - 224) * 4096 + (b1 - 128) * 64 + (b2 - 128)) # cs))
             else Inl UnicodeDecodeError
         | _ \<Rightarrow> Inl UnicodeDecodeError)
      else if 240 \<le> b0 \<and> b0 < 245 then
        (case bs of
           b1 # b2 # b3 # r \<Rightarrow>
             if (if b0 = 240 then 144 \<le> b1 \<and> b1 < 192
                 else if b0 = 244 then 128 \<le> b1 \<and> b1 < 144
                 else cont b1) \<and> cont b2 \<and> cont b3 then
               (case decode_utf8 r of
                  Inl e \<Rightarrow> Inl e
                | Inr cs \<Rightarrow>
                    Inr (((b0 - 240) * 262144 + (b1 - 128) * 4096 + (b2 - 128) * 64
                          + (b3 - 128)) # cs))
             else Inl UnicodeDecodeError
         | _ \<Rightarrow> Inl UnicodeDecodeError)
      else Inl UnicodeDecodeError)"

text \<open>
  The lambda of the repair:
  \<^verbatim>\<open>x.encode('latin1').decode('utf-8') if isinstance(x, str) else x\<close>.
\<close>

fun corregir :: "val \<Rightarrow> error + val" where
  "corregir (Str s) =
     (case encode_latin1 s of
        Inl e \<Rightarrow> Inl e
      | Inr bs \<Rightarrow> (case decode_utf8 bs of Inl e \<Rightarrow> Inl e | Inr t \<Rightarrow> Inr (Str t)))"
| "corregir x = Inr x"

text \<open>
  \<open>select_dtypes(include='object')\<close>: a column read from CSV text has dtype object
  when it holds a string. The labels come out in column order.
\<close>

definition columna_en :: "table \<Rightarrow> nat \<Rightarrow> val list" where
  "columna_en df j = map (\<lambda>ir. if j < length (snd ir) then snd ir ! j else Absent) (rows df)"

definition select_dtypes_object :: "table \<Rightarrow> ustring list" where
  "select_dtypes_object df =
     map (\<lambda>j. columns df ! j)
       (filter (\<lambda>j. list_ex isinstance_str (columna_en df j)) [0..<length (columns df)])"

text \<open>
  The loop over the object columns, and its body. The \<open>try\<close> encloses the whole \<open>apply\<close> and the
  assignment: an exception on any value leaves \<open>df\<close> as it was
  (\<open>except Exception: pass\<close>). For a label that occurs more than once \<open>df[col]\<close> is a
  frame, the lambda receives whole columns, which are not \<open>str\<close>, and nothing changes.
\<close>

definition corregir_paso :: "ustring \<Rightarrow> table \<Rightarrow> table" where
  "corregir_paso col df =
     (if 1 < count_list (columns df) col then df
      else case apply_series corregir (getitem df col) of
             Inl e \<Rightarrow> df
           | Inr s \<Rightarrow> setitem df col s)"

fun corregir_bucle :: "ustring list \<Rightarrow> table \<Rightarrow> table" where
  "corregir_bucle [] df = df"
| "corregir_bucle (col # cols) df = corregir_bucle cols (corregir_paso col df)"

definition corregir_texto :: "table \<Rightarrow> table" where
  "corregir_texto df = corregir_bucle (select_dtypes_object df) df"

section \<open>limpiar_datos: pruning rows and sentinels\<close>

text \<open>\<open>df.dropna(how='all')\<close> keeps the rows with a value that is not missing.\<close>

definition dropna_all :: "table \<Rightarrow> table" where
  "dropna_all df = df\<lparr>rows := filter (\<lambda>ir. list_ex (\<lambda>v. v \<noteq> Absent) (snd ir)) (rows df)\<rparr>"

text \<open>
  \<open>df.drop_duplicates()\<close>, with its default \<open>keep='first'\<close>: a row is dropped when a
  row before it has the same values in all columns (missing equals missing).
\<close>

fun drop_seen :: "val list list \<Rightarrow> (nat \<times> val list) list \<Rightarrow> (nat \<times> val list) list" where
  "drop_seen seen [] = []"
| "drop_seen seen (ir # rs) =
     (if snd ir \<in> set seen then drop_seen seen rs
      else ir # drop_seen (snd ir # seen) rs)"

definition drop_duplicates :: "table \<Rightarrow> table" where
  "drop_duplicates df = df\<lparr>rows := drop_seen [] (rows df)\<rparr>"

text \<open>\<open>df.replace({'N/A': None, 'n/a': None, '': None})\<close>.\<close>

definition centinelas :: "(val \<times> val) list" where
  "centinelas = [(Str (ustr ''N/A''), Absent), (Str (ustr ''n/a''), Absent), (Str [], Absent)]"

definition replace_val :: "(val \<times> val) list \<Rightarrow> val \<Rightarrow> val" where
  "replace_val d v = (case map_of d v of Some w \<Rightarrow> w | None \<Rightarrow> v)"

definition replace_dict :: "(val \<times> val) list \<Rightarrow> table \<Rightarrow> table" where
  "replace_dict d df = df\<lparr>rows := map (\<lambda>ir. (fst ir, map (replace_val d) (snd ir))) (rows df)\<rparr>"

section \<open>limpiar_datos: column names\<close>

definition strip :: "library \<Rightarrow> ustring \<Rightarrow> ustring" where
  "strip L s = rev (dropWhile (isspace L) (rev (dropWhile (isspace L) s)))"

definition replace_char :: "nat \<Rightarrow> nat \<Rightarrow> ustring \<Rightarrow> ustring" where
  "replace_char a b s = map (\<lambda>c. if c = a then b else c) s"

definition normalizar_columna :: "library \<Rightarrow> ustring \<Rightarrow> ustring" where
  "normalizar_columna L nombre =
     (let nfkd_form = normalize_NFKD L nombre;
          solo_ascii = filter (\<lambda>c. combining L c = 0) nfkd_form
      in replace_char 32 95 (strip L (lower L solo_ascii)))"

definition renombrar :: "library \<Rightarrow> table \<Rightarrow> table" where
  "renombrar L df = df\<lparr>columns := map (normalizar_columna L) (columns df)\<rparr>"

section \<open>limpiar_datos: dates\<close>

function digitos :: "nat \<Rightarrow> ustring" where
  "digitos n = (if n < 10 then [48 + n] else digitos (n div 10) @ [48 + n mod 10])"
  by pat_completeness auto
termination
  by (relation "measure id") auto

declare digitos.simps [simp del]

text \<open>Python's \<open>str\<close> of an integer, as an f-string writes it.\<close>

definition str_int :: "int \<Rightarrow> ustring" where
  "str_int i = (if i < 0 then 45 # digitos (nat (- i)) else digitos (nat i))"

definition meses :: "(int \<times> ustring) list" where
  "meses =
     [(1, ustr ''enero''), (2, ustr ''febrero''), (3, ustr ''marzo''), (4, ustr ''abril''),
      (5, ustr ''mayo''), (6, ustr ''junio''), (7, ustr ''julio''), (8, ustr ''agosto''),
      (9, ustr ''septiembre''), (10, ustr ''octubre''), (11, ustr ''noviembre''),
      (12, ustr ''diciembre'')]"

text \<open>
  The lambda of the companion text:
  \<^verbatim>\<open>f"{x.day} de {meses[x.month]} de {x.year}" if pd.notnull(x) else None\<close>.
  A value that is neither missing nor a Timestamp has no \<open>day\<close>.
\<close>

fun fecha_texto :: "val \<Rightarrow> error + val" where
  "fecha_texto Absent = Inr Absent"
| "fecha_texto (Fecha x) =
     (case map_of meses (month x) of
        None \<Rightarrow> Inl KeyError
      | Some m \<Rightarrow>
          Inr (Str (str_int (day x) @ ustr '' de '' @ m @ ustr '' de '' @ str_int (year x))))"
| "fecha_texto v = Inl AttributeError"

definition fecha_publicacion :: ustring where
  "fecha_publicacion = ustr ''fecha_publicacion''"

definition a_celda :: "timestamp option \<Rightarrow> val" where
  "a_celda x = (case x of None \<Rightarrow> Absent | Some t \<Rightarrow> Fecha t)"

text \<open>
  The block under \<open>if 'fecha_publicacion' in df.columns\<close>. When the label occurs more
  than once, \<open>df['fecha_publicacion']\<close> is a frame and \<open>pd.to_datetime\<close> refuses it.
\<close>

definition formatear_fechas :: "library \<Rightarrow> table \<Rightarrow> error + table" where
  "formatear_fechas L df =
     (if fecha_publicacion \<notin> set (columns df) then Inr df
      else if 1 < count_list (columns df) fecha_publicacion then
        Inl (ValueError ''cannot assemble with duplicate keys'')
      else
        let df1 = setitem df fecha_publicacion
                    (map a_celda (to_datetime L (getitem df fecha_publicacion)))
        in case apply_series fecha_texto (getitem df1 fecha_publicacion) of
             Inl e \<Rightarrow> Inl e
           | Inr textos \<Rightarrow> Inr (setitem df1 (ustr ''fecha_texto'') textos))"

section \<open>limpiar_datos\<close>

definition podar :: "table \<Rightarrow> table" where
  "podar df = drop_duplicates (dropna_all (corregir_texto df))"

definition limpiar_datos :: "library \<Rightarrow> table \<Rightarrow> error + table" where
  "limpiar_datos L df =
     formatear_fechas L (renombrar L (replace_dict centinelas (podar df)))"

section \<open>descargar_datos_completos\<close>

text \<open>
  The answer to one page request: the HTTP status and what \<open>pd.read_csv\<close> makes of the
  body, which is a frame or an exception. The server is a function from the
  \<open>$offset\<close> of the request to the outcome of \<open>requests.get\<close>.
\<close>

record response =
  status_code :: int
  read_csv :: "error + table"

definition limit :: nat where
  "limit = 50000"

definition df_empty :: "table \<Rightarrow> bool" where
  "df_empty df = (columns df = [] \<or> rows df = [])"

text \<open>
  The \<open>while True\<close> loop, with \<open>offset\<close> and \<open>all_data\<close> as its state. It returns when
  a \<open>break\<close> or an exception ends it, and \<open>None\<close> stands for a run that never ends.
\<close>

partial_function (option) descargar_bucle ::
  "(nat \<Rightarrow> error + response) \<Rightarrow> nat \<Rightarrow> table list \<Rightarrow> (error + table list) option" where
  "descargar_bucle get offset all_data =
     (case get offset of
        Inl e \<Rightarrow> Some (Inl e)
      | Inr response \<Rightarrow>
          if status_code response \<noteq> 200 then Some (Inr all_data)
          else
            (case read_csv response of
               Inl e \<Rightarrow> Some (Inl e)
             | Inr df_temp \<Rightarrow>
                 if df_empty df_temp then Some (Inr all_data)
                 else descargar_bucle get (offset + limit) (all_data @ [df_temp])))"

text \<open>
  \<open>pd.concat(all_data, ignore_index=True)\<close>: no frame at all is a ValueError; frames
  with the same labels are stacked; otherwise the labels are united in order of first
  appearance and the missing cells are NaN, which pandas refuses when a frame repeats a
  label. The index is renumbered from 0.
\<close>

definition alinear :: "ustring list \<Rightarrow> table \<Rightarrow> val list list" where
  "alinear cols f =
     map (\<lambda>ir. map (\<lambda>c. case map_of (zip (columns f) (snd ir)) c of Some v \<Rightarrow> v | None \<Rightarrow> Absent)
                  cols)
       (rows f)"

definition pd_concat :: "table list \<Rightarrow> error + table" where
  "pd_concat objs =
     (if objs = [] then Inl (ValueError ''No objects to concatenate'')
      else if list_all (\<lambda>f. columns f = columns (hd objs)) objs then
        (let rs = concat (map (\<lambda>f. map snd (rows f)) objs)
         in Inr \<lparr>columns = columns (hd objs), rows = zip [0..<length rs] rs\<rparr>)
      else if list_ex (\<lambda>f. \<not> distinct (columns f)) objs then
        Inl (ValueError ''Reindexing only valid with uniquely valued Index objects'')
      else
        (let cols = rev (remdups (rev (concat (map columns objs))));
             rs = concat (map (alinear cols) objs)
         in Inr \<lparr>columns = cols, rows = zip [0..<length rs] rs\<rparr>))"

definition descargar_datos_completos :: "(nat \<Rightarrow> error + response) \<Rightarrow> (error + table) option" where
  "descargar_datos_completos get =
     (case descargar_bucle get 0 [] of
        None \<Rightarrow> None
      | Some (Inl e) \<Rightarrow> Some (Inl e)
      | Some (Inr all_data) \<Rightarrow> Some (pd_concat all_data))"

section \<open>generar_visualizaciones\<close>

text \<open>
  What a chart routine did: saved the chart of a series, or printed one of its two
  diagnostics. The series is what \<open>plot\<close> receives.
\<close>

datatype grafico = Guardado "(val \<times> nat) list" | Sin_datos | Sin_columna

record graficos =
  top_paises :: grafico
  distribucion_genero :: grafico
  evolucion_anual :: grafico

definition grafico_paises :: "library \<Rightarrow> table \<Rightarrow> grafico" where
  "grafico_paises L df =
     (if ustr ''pais'' \<in> set (columns df) then
        (let top = take 10 (value_counts L (getitem df (ustr ''pais'')))
         in if top \<noteq> [] then Guardado top else Sin_datos)
      else Sin_columna)"

definition grafico_genero :: "library \<Rightarrow> table \<Rightarrow> grafico" where
  "grafico_genero L df =
     (if ustr ''genero'' \<in> set (columns df) then
        (let genero_counts = value_counts L (getitem df (ustr ''genero''))
         in if genero_counts \<noteq> [] then Guardado genero_counts else Sin_datos)
      else Sin_columna)"

text \<open>\<open>.dt.year\<close> on a column of Timestamps and NaT.\<close>

fun dt_year :: "val \<Rightarrow> val" where
  "dt_year (Fecha x) = Num (year x)"
| "dt_year v = Absent"

definition sort_index :: "(val \<times> nat) list \<Rightarrow> (val \<times> nat) list" where
  "sort_index s = sort_key (\<lambda>p. case fst p of Num y \<Rightarrow> y | _ \<Rightarrow> 0) s"

text \<open>
  The third routine assigns to \<open>df\<close>: it overwrites \<open>fecha_publicacion\<close> and, when a
  date is valid, sets \<open>anio\<close>. It returns the frame as it leaves it.
\<close>

definition grafico_anual :: "library \<Rightarrow> table \<Rightarrow> error + table \<times> grafico" where
  "grafico_anual L df =
     (if fecha_publicacion \<in> set (columns df) then
        if 1 < count_list (columns df) fecha_publicacion then
          Inl (ValueError ''cannot assemble with duplicate keys'')
        else
          (let df1 = setitem df fecha_publicacion
                       (map a_celda (to_datetime L (getitem df fecha_publicacion)))
           in if 0 < length (filter (\<lambda>v. v \<noteq> Absent) (getitem df1 fecha_publicacion)) then
                (let df2 = setitem df1 (ustr ''anio'') (map dt_year (getitem df1 fecha_publicacion));
                     casos_anuales = sort_index (value_counts L (getitem df2 (ustr ''anio'')))
                 in Inr (df2, Guardado casos_anuales))
              else Inr (df1, Sin_datos))
      else Inr (df, Sin_columna))"

text \<open>
  The frames live in a store, a list addressed by position, and \<open>df\<close> is an address:
  the caller's frame at first, the address of the new sample after
  \<open>df = df.sample(30000, random_state=42)\<close>. The function returns the store as it
  leaves it, with the three charts.
\<close>

definition generar_visualizaciones ::
  "library \<Rightarrow> table list \<Rightarrow> nat \<Rightarrow> bool \<Rightarrow> error + table list \<times> graficos" where
  "generar_visualizaciones L h df0 rapido =
     (let (h1, df) =
            (if rapido \<and> 50000 < length (rows (h ! df0))
             then (h @ [sample L 30000 42 (h ! df0)], length h)
             else (h, df0));
          g1 = grafico_paises L (h1 ! df);
          g2 = grafico_genero L (h1 ! df)
      in case grafico_anual L (h1 ! df) of
           Inl e \<Rightarrow> Inl e
         | Inr (df', g3) \<Rightarrow>
             Inr (h1[df := df'],
                  \<lparr>top_paises = g1, distribucion_genero = g2, evolucion_anual = g3\<rparr>))"

section \<open>A library for evaluating the model\<close>

text \<open>
  A concrete library, to run the model on concrete frames. On ASCII text NFKD changes
  nothing, no character is a combining mark, and \<open>lower\<close> and \<open>isspace\<close> are the ASCII
  ones. \<open>iso_fecha\<close> reads a date written YYYY-MM-DD and keeps a Timestamp; pandas
  reads more formats than that, so the library is used only on frames whose labels are
  ASCII and whose dates are missing, Timestamps or written so. \<open>primeras\<close> takes the
  first \<open>n\<close> rows where pandas draws \<open>n\<close> rows at random, and \<open>contar\<close> counts the values
  that are not missing, most frequent first.
\<close>

definition ascii_lower :: "ustring \<Rightarrow> ustring" where
  "ascii_lower s = map (\<lambda>c. if 65 \<le> c \<and> c \<le> 90 then c + 32 else c) s"

definition ascii_isspace :: "nat \<Rightarrow> bool" where
  "ascii_isspace c = (c \<in> {9, 10, 11, 12, 13, 28, 29, 30, 31, 32})"

definition numero :: "nat list \<Rightarrow> nat" where
  "numero ds = foldl (\<lambda>n d. 10 * n + (d - 48)) 0 ds"

definition dias_del_mes :: "nat \<Rightarrow> nat \<Rightarrow> nat" where
  "dias_del_mes y m =
     (if m = 2 then (if y mod 4 = 0 \<and> (y mod 100 \<noteq> 0 \<or> y mod 400 = 0) then 29 else 28)
      else if m \<in> {4, 6, 9, 11} then 30 else 31)"

fun iso_fecha :: "val \<Rightarrow> timestamp option" where
  "iso_fecha (Fecha x) = (if 1 \<le> month x \<and> month x \<le> 12 then Some x else None)"
| "iso_fecha (Str s) =
     (if length s = 10 \<and> s ! 4 = 45 \<and> s ! 7 = 45
         \<and> list_all (\<lambda>c. 48 \<le> c \<and> c \<le> 57) (take 4 s @ take 2 (drop 5 s) @ drop 8 s) then
        (let y = numero (take 4 s); m = numero (take 2 (drop 5 s)); d = numero (drop 8 s)
         in if 1678 \<le> y \<and> y \<le> 2261 \<and> 1 \<le> m \<and> m \<le> 12 \<and> 1 \<le> d \<and> d \<le> dias_del_mes y m
            then Some (Timestamp (int y) (int m) (int d)) else None)
      else None)"
| "iso_fecha v = None"

definition primeras :: "nat \<Rightarrow> nat \<Rightarrow> table \<Rightarrow> table" where
  "primeras n seed df = df\<lparr>rows := take n (rows df)\<rparr>"

definition contar :: "val list \<Rightarrow> (val \<times> nat) list" where
  "contar s =
     (let vs = filter (\<lambda>v. v \<noteq> Absent) s
      in sort_key (\<lambda>p. - int (snd p)) (map (\<lambda>v. (v, count_list vs v)) (rev (remdups (rev vs)))))"

definition biblioteca :: library where
  "biblioteca =
     \<lparr>normalize_NFKD = (\<lambda>s. s), combining = (\<lambda>c. 0), lower = ascii_lower,
      isspace = ascii_isspace, to_datetime = map iso_fecha, sample = primeras,
      value_counts = contar\<rparr>"

section \<open>Frames for evaluating the model\<close>

definition tabla_centinelas :: table where
  "tabla_centinelas =
     \<lparr>columns = [ustr ''Pais'', ustr ''Genero''],
      rows = [(0, [Str (ustr ''N/A''), Str []]), (1, [Str (ustr ''Chile''), Str (ustr ''M'')])]\<rparr>"


definition tabla_repetida :: table where
  "tabla_repetida =
     \<lparr>columns = [ustr ''Pais''],
      rows = [(0, [Str (ustr ''Chile'')]), (1, [Str (ustr ''Peru'')]),
              (2, [Str (ustr ''Chile'')])]\<rparr>"

definition tabla_mixta :: table where
  "tabla_mixta =
     \<lparr>columns = [ustr ''nombre''],
      rows = [(0, [Str [74, 111, 115, 195, 169]]), (1, [Str [77, 97, 114, 237, 97]])]\<rparr>"

definition tabla_reparable :: table where
  "tabla_reparable =
     \<lparr>columns = [ustr ''nombre''],
      rows = [(0, [Str [74, 111, 115, 195, 169]]), (1, [Str [77, 97, 114, 195, 173, 97]])]\<rparr>"

section \<open>The repair, column by column and value by value\<close>

text \<open>
  What the \<open>try\<close> block of the repair leaves in a column that holds the values \<open>s\<close>:
  the results of the lambda, or \<open>s\<close> itself when the lambda raised on one of them.
\<close>

definition reparar :: "val list \<Rightarrow> val list" where
  "reparar s = (case apply_series corregir s of Inl e \<Rightarrow> s | Inr s' \<Rightarrow> s')"

text \<open>
  The repair as the specification words it, value by value: a value whose
  reinterpretation fails is kept, every other value is replaced by its reinterpretation.
\<close>

definition reparar_por_valor :: "val \<Rightarrow> val" where
  "reparar_por_valor v = (case corregir v of Inl e \<Rightarrow> v | Inr w \<Rightarrow> w)"

section \<open>Column names, as the specification words them\<close>

text \<open>
  A name of lowercase ASCII letters, digits and underscores only, and a name of ASCII
  letters, digits, spaces and underscores only.
\<close>

definition nombre_limpio :: "ustring \<Rightarrow> bool" where
  "nombre_limpio s =
     list_all (\<lambda>c. (97 \<le> c \<and> c \<le> 122) \<or> (48 \<le> c \<and> c \<le> 57) \<or> c = 95) s"

definition letras_digitos_espacios :: "ustring \<Rightarrow> bool" where
  "letras_digitos_espacios s =
     list_all (\<lambda>c. (65 \<le> c \<and> c \<le> 90) \<or> (97 \<le> c \<and> c \<le> 122) \<or> (48 \<le> c \<and> c \<le> 57)
                  \<or> c = 32 \<or> c = 95) s"

definition tabla_fechas :: table where
  "tabla_fechas =
     \<lparr>columns = [ustr ''fecha_publicacion''],
      rows = [(0, [Str (ustr ''2021-03-15'')]), (1, [Str (ustr ''sin fecha'')])]\<rparr>"

text \<open>A server that answers every page request with HTTP 500.\<close>

definition siempre_500 :: "nat \<Rightarrow> error + response" where
  "siempre_500 offset = Inr \<lparr>status_code = 500, read_csv = Inl ParserError\<rparr>"

section \<open>Frames and library promises for the chart generator\<close>

text \<open>
  What pandas promises of \<open>DataFrame.sample(n, random_state=seed)\<close> on a frame of at
  least \<open>n\<close> rows: a frame of \<open>n\<close> rows.
\<close>

definition sample_ok :: "library \<Rightarrow> bool" where
  "sample_ok L = (\<forall>n seed df. n \<le> length (rows df) \<longrightarrow> length (rows (sample L n seed df)) = n)"

text \<open>
  A clean table as \<open>limpiar_datos\<close> returns it, and a table of 50001 rows.
\<close>

definition tabla_limpia :: table where
  "tabla_limpia =
     \<lparr>columns = [ustr ''fecha_publicacion'', ustr ''fecha_texto''],
      rows = [(0, [Fecha (Timestamp 2021 3 15), Str (ustr ''15 de marzo de 2021'')])]\<rparr>"

definition tabla_grande :: table where
  "tabla_grande =
     \<lparr>columns = [ustr ''pais''],
      rows = map (\<lambda>i. (i, [Str (ustr ''Chile'')])) [0..<50001]\<rparr>"

text \<open>A clean table in which no date is valid.\<close>

definition tabla_sin_fechas_validas :: table where
  "tabla_sin_fechas_validas =
     \<lparr>columns = [ustr ''fecha_publicacion'', ustr ''fecha_texto''],
      rows = [(0, [Absent, Absent])]\<rparr>"

section \<open>Libraries for the column names\<close>

text \<open>
  What Python fixes of \<open>str.lower\<close> on ASCII text: only the letters A to Z change.
\<close>

definition lower_ascii :: "library \<Rightarrow> bool" where
  "lower_ascii L = (\<forall>s. list_all (\<lambda>c. c < 128) s \<longrightarrow> lower L s = ascii_lower s)"

text \<open>
  The evaluation library with the NFKD decomposition of the accented letters of
  Spanish (vowels with acute accent, n with tilde, u with diaeresis, in both cases)
  into the base letter and its combining mark (U+0301, U+0303, U+0308, all of combining
  class 230). It is used on names made of ASCII and of those letters only.
\<close>

definition descomponer_es :: "nat \<Rightarrow> ustring" where
  "descomponer_es c =
     (case map_of
        [(193, [65, 769]), (201, [69, 769]), (205, [73, 769]), (209, [78, 771]),
         (211, [79, 769]), (218, [85, 769]), (220, [85, 776]),
         (225, [97, 769]), (233, [101, 769]), (237, [105, 769]), (241, [110, 771]),
         (243, [111, 769]), (250, [117, 769]), (252, [117, 776])] c of
        Some d \<Rightarrow> d
      | None \<Rightarrow> [c])"

definition combining_es :: "nat \<Rightarrow> nat" where
  "combining_es c = (if c = 769 \<or> c = 771 \<or> c = 776 then 230 else 0)"

definition biblioteca_es :: library where
  "biblioteca_es =
     biblioteca\<lparr>normalize_NFKD := (\<lambda>s. concat (map descomponer_es s)),
                combining := combining_es\<rparr>"

text \<open>
  Tables as \<open>pd.read_csv\<close> can return them: one with a row whose only value is a date
  that cannot be read, and one with two rows that differ only in such dates.
\<close>

definition tabla_fecha_ilegible :: table where
  "tabla_fecha_ilegible =
     \<lparr>columns = [ustr ''Pais'', ustr ''Fecha Publicacion''],
      rows = [(0, [Str (ustr ''Chile''), Str (ustr ''2021-03-15'')]),
              (1, [Absent, Str (ustr ''sin fecha'')])]\<rparr>"


section \<open>Series.apply and the repair loop\<close>

lemma apply_series_Inr_map:
  "apply_series f xs = Inr ys \<Longrightarrow> ys = map (\<lambda>x. projr (f x)) xs \<and> list_all (\<lambda>x. \<not> isl (f x)) xs"
  by (induction xs arbitrary: ys) (auto split: sum.splits)

lemma apply_series_Inl:
  "apply_series f xs = Inl e \<Longrightarrow> list_ex (\<lambda>x. isl (f x)) xs"
  by (induction xs) (auto split: sum.splits)

lemma apply_series_all:
  "list_all (\<lambda>x. \<not> isl (f x)) xs \<Longrightarrow> apply_series f xs = Inr (map (\<lambda>x. projr (f x)) xs)"
  by (induction xs) (auto split: sum.splits)

lemma apply_series_length:
  "apply_series f xs = Inr ys \<Longrightarrow> length ys = length xs"
  by (auto dest: apply_series_Inr_map)

lemma length_getitem [simp]: "length (getitem df c) = length (rows df)"
  by (simp add: getitem_def)

lemma map2_map_right: "map2 h rs (map k rs) = map (\<lambda>r. h r (k r)) rs"
  by (induction rs) auto

lemma setitem_getitem_rows:
  assumes "c \<in> set (columns df)"
  shows "rows (setitem df c (map g (getitem df c))) =
         map (\<lambda>ir. (fst ir,
                map2 (\<lambda>c' x. if c' = c
                          then g (case map_of (zip (columns df) (snd ir)) c of Some v \<Rightarrow> v | None \<Rightarrow> Absent)
                          else x) (columns df) (snd ir))) (rows df)"
  using assms by (simp add: setitem_def getitem_def map2_map_right)

lemma filas_id: "\<exists>F. rows df = map (\<lambda>ir. (fst ir, F (snd ir))) (rows df) \<and> columns df = columns df"
  by (rule exI [of _ "\<lambda>r. r"]) simp

lemma corregir_paso_filas:
  assumes "col \<in> set (columns df)"
  shows "\<exists>F. rows (corregir_paso col df) = map (\<lambda>ir. (fst ir, F (snd ir))) (rows df)
           \<and> columns (corregir_paso col df) = columns df"
proof (cases "1 < count_list (columns df) col")
  case True
  then have "corregir_paso col df = df" by (simp add: corregir_paso_def)
  then show ?thesis using filas_id [of df] by simp
next
  case False
  show ?thesis
  proof (cases "apply_series corregir (getitem df col)")
    case (Inl e)
    with False have "corregir_paso col df = df" by (simp add: corregir_paso_def)
    then show ?thesis using filas_id [of df] by simp
  next
    case (Inr s)
    then have s: "s = map (\<lambda>x. projr (corregir x)) (getitem df col)"
      by (auto dest: apply_series_Inr_map)
    from False Inr have eq: "corregir_paso col df = setitem df col s"
      by (simp add: corregir_paso_def)
    have "columns (setitem df col s) = columns df"
      using assms by (simp add: setitem_def)
    moreover note setitem_getitem_rows [OF assms, of "\<lambda>x. projr (corregir x)"]
    ultimately show ?thesis unfolding eq s
      by (intro exI [of _ "\<lambda>r. map2 (\<lambda>c' x. if c' = col
             then projr (corregir (case map_of (zip (columns df) r) col of Some v \<Rightarrow> v | None \<Rightarrow> Absent))
             else x) (columns df) r"]) simp
  qed
qed

lemma corregir_bucle_filas:
  "set cols \<subseteq> set (columns df) \<Longrightarrow>
   \<exists>F. rows (corregir_bucle cols df) = map (\<lambda>ir. (fst ir, F (snd ir))) (rows df)
        \<and> columns (corregir_bucle cols df) = columns df"
proof (induction cols arbitrary: df)
  case Nil
  show ?case using filas_id [of df] by simp
next
  case (Cons col cols)
  then have col: "col \<in> set (columns df)" by simp
  from corregir_paso_filas [OF col] obtain F where
    F: "rows (corregir_paso col df) = map (\<lambda>ir. (fst ir, F (snd ir))) (rows df)"
    and c: "columns (corregir_paso col df) = columns df" by blast
  from Cons.prems c have "set cols \<subseteq> set (columns (corregir_paso col df))" by simp
  from Cons.IH [OF this] obtain G where
    G: "rows (corregir_bucle cols (corregir_paso col df))
          = map (\<lambda>ir. (fst ir, G (snd ir))) (rows (corregir_paso col df))"
    and c': "columns (corregir_bucle cols (corregir_paso col df)) = columns (corregir_paso col df)"
    by blast
  have "rows (corregir_bucle (col # cols) df) = map (\<lambda>ir. (fst ir, (G \<circ> F) (snd ir))) (rows df)"
    by (simp add: G F)
  with c c' show ?case by auto
qed

lemma select_dtypes_object_subset: "set (select_dtypes_object df) \<subseteq> set (columns df)"
  by (auto simp: select_dtypes_object_def)

lemma corregir_texto_filas:
  "\<exists>F. rows (corregir_texto df) = map (\<lambda>ir. (fst ir, F (snd ir))) (rows df)
        \<and> columns (corregir_texto df) = columns df"
  unfolding corregir_texto_def
  by (rule corregir_bucle_filas [OF select_dtypes_object_subset])

section \<open>Row pruning\<close>

lemma drop_seen_set_cong:
  "set s1 = set s2 \<Longrightarrow> drop_seen s1 rs = drop_seen s2 rs"
proof (induction rs arbitrary: s1 s2)
  case Nil
  show ?case by simp
next
  case (Cons ir rs)
  from Cons.prems have "set (snd ir # s1) = set (snd ir # s2)" by simp
  from Cons.IH [OF this] Cons.IH [OF Cons.prems] Cons.prems show ?case by simp
qed

lemma subseq_drop_seen: "subseq (drop_seen seen rs) rs"
  by (induction rs arbitrary: seen) auto

lemma set_drop_seen: "set (drop_seen seen rs) \<subseteq> set rs"
  by (induction rs arbitrary: seen) (auto split: if_splits)




lemma drop_seen_append:
  "drop_seen seen (xs @ ys) = drop_seen seen xs @ drop_seen (map snd xs @ seen) ys"
proof (induction xs arbitrary: seen)
  case Nil
  show ?case by simp
next
  case (Cons ir xs)
  show ?case
  proof (cases "snd ir \<in> set seen")
    case True
    then have "set (map snd (ir # xs) @ seen) = set (map snd xs @ seen)" by auto
    from drop_seen_set_cong [OF this] True Cons.IH [of seen] show ?thesis by simp
  next
    case False
    have "set (map snd (ir # xs) @ seen) = set (map snd xs @ snd ir # seen)" by auto
    from drop_seen_set_cong [OF this] False Cons.IH [of "snd ir # seen"] show ?thesis by simp
  qed
qed

lemma drop_seen_covers:
  "snd ` set (drop_seen seen rs) \<union> set seen = snd ` set rs \<union> set seen"
proof (induction rs arbitrary: seen)
  case Nil
  show ?case by simp
next
  case (Cons ir rs)
  show ?case
  proof (cases "snd ir \<in> set seen")
    case True
    with Cons.IH [of seen] show ?thesis by auto
  next
    case False
    with Cons.IH [of "snd ir # seen"] show ?thesis by auto
  qed
qed

lemma rows_podar:
  "rows (podar df) =
     drop_seen [] (filter (\<lambda>ir. list_ex (\<lambda>v. v \<noteq> Absent) (snd ir)) (rows (corregir_texto df)))"
  by (simp add: podar_def drop_duplicates_def dropna_all_def)

lemma map_fst_map2:
  "length vs = length rs \<Longrightarrow> (\<And>r v. fst (f r v) = fst r) \<Longrightarrow> map fst (map2 f rs vs) = map fst rs"
  by (induction vs rs rule: list_induct2) auto

lemma setitem_labels:
  "length vs = length (rows df) \<Longrightarrow> map fst (rows (setitem df c vs)) = map fst (rows df)"
  by (cases "c \<in> set (columns df)") (simp_all add: setitem_def map_fst_map2 del: map_map)

lemma formatear_fechas_labels:
  assumes ok: "to_datetime_ok L" and out: "formatear_fechas L df = Inr out"
  shows "map fst (rows out) = map fst (rows df)"
proof (cases "fecha_publicacion \<in> set (columns df)")
  case False
  with out show ?thesis by (simp add: formatear_fechas_def)
next
  case True
  define df1 where "df1 = setitem df fecha_publicacion
                    (map a_celda (to_datetime L (getitem df fecha_publicacion)))"
  from ok have len: "length (map a_celda (to_datetime L (getitem df fecha_publicacion))) = length (rows df)"
    by (simp add: to_datetime_ok_def)
  have l1: "map fst (rows df1) = map fst (rows df)"
    unfolding df1_def by (rule setitem_labels [OF len])
  from out True obtain textos where
    t: "apply_series fecha_texto (getitem df1 fecha_publicacion) = Inr textos"
    and o: "out = setitem df1 (ustr ''fecha_texto'') textos"
    by (auto simp: formatear_fechas_def Let_def df1_def split: if_splits sum.splits)
  from apply_series_length [OF t] have "length textos = length (rows df1)" by simp
  from setitem_labels [OF this] l1 o show ?thesis by simp
qed

lemma limpiar_datos_labels:
  assumes "to_datetime_ok L" and "limpiar_datos L df = Inr out"
  shows "map fst (rows out) = map fst (rows (podar df))"
proof -
  from formatear_fechas_labels [OF assms(1) assms(2) [unfolded limpiar_datos_def]]
  show ?thesis by (simp add: renombrar_def replace_dict_def comp_def)
qed

lemma podar_no_vacias:
  "list_all (\<lambda>ir. list_ex (\<lambda>v. v \<noteq> Absent) (snd ir)) (rows (podar df))"
proof -
  have "set (rows (podar df))
          \<subseteq> set (filter (\<lambda>ir. list_ex (\<lambda>v. v \<noteq> Absent) (snd ir)) (rows (corregir_texto df)))"
    unfolding rows_podar by (rule set_drop_seen)
  then show ?thesis by (auto simp: list_all_iff)
qed


lemma subseq_podar: "subseq (map fst (rows (podar df))) (map fst (rows df))"
proof -
  obtain F where F: "rows (corregir_texto df) = map (\<lambda>ir. (fst ir, F (snd ir))) (rows df)"
    using corregir_texto_filas [of df] by blast
  have "subseq (rows (podar df)) (rows (corregir_texto df))"
    unfolding rows_podar
    by (rule subseq_order.trans [OF subseq_drop_seen subseq_filter_left])
  then have "subseq (map fst (rows (podar df))) (map fst (rows (corregir_texto df)))"
    by (rule subseq_map)
  then show ?thesis by (simp add: F comp_def)
qed

text \<open>A row whose values already occurred is not kept; a row that is not kept is empty or
  has a kept row before it with its values.\<close>

lemma podar_split:
  assumes "rows (corregir_texto df) = pre @ (l, r) # post"
  shows "rows (podar df) =
           drop_seen [] (filter (\<lambda>ir. list_ex (\<lambda>v. v \<noteq> Absent) (snd ir)) pre)
           @ drop_seen (map snd (filter (\<lambda>ir. list_ex (\<lambda>v. v \<noteq> Absent) (snd ir)) pre))
               (filter (\<lambda>ir. list_ex (\<lambda>v. v \<noteq> Absent) (snd ir)) ((l, r) # post))"
  unfolding rows_podar assms by (simp add: drop_seen_append)

lemma labels_distinct_parts:
  assumes d: "distinct (map fst (pre @ (l, r) # post))"
    and x: "x \<in> set pre \<union> set post"
  shows "fst x \<noteq> l"
  using d x by (auto simp: image_iff) 

lemma podar_later_copy:
  assumes d: "distinct (map fst (rows (corregir_texto df)))"
    and sp: "rows (corregir_texto df) = pre @ (l, r) # post"
    and dup: "r \<in> snd ` set pre"
  shows "l \<notin> fst ` set (rows (podar df))"
proof
  let ?P = "\<lambda>ir. list_ex (\<lambda>v. v \<noteq> Absent) (snd ir)"
  assume "l \<in> fst ` set (rows (podar df))"
  then obtain x where x: "x \<in> set (rows (podar df))" and lx: "fst x = l" by auto
  have "x \<in> set pre \<union> set post"
  proof (cases "?P (l, r)")
    case False
    then have "rows (podar df) = drop_seen [] (filter ?P pre)
        @ drop_seen (map snd (filter ?P pre)) (filter ?P post)"
      using podar_split [OF sp] by simp
    with x set_drop_seen [of "[]" "filter ?P pre"]
      set_drop_seen [of "map snd (filter ?P pre)" "filter ?P post"]
    show ?thesis by auto
  next
    case True
    from dup obtain y where y: "y \<in> set pre" and "snd y = r" by auto
    with True have "?P y" by simp
    with y \<open>snd y = r\<close> have "r \<in> set (map snd (filter ?P pre))" by force
    with True have "rows (podar df) = drop_seen [] (filter ?P pre)
        @ drop_seen (map snd (filter ?P pre)) (filter ?P post)"
      using podar_split [OF sp] by simp
    with x set_drop_seen [of "[]" "filter ?P pre"]
      set_drop_seen [of "map snd (filter ?P pre)" "filter ?P post"]
    show ?thesis by auto
  qed
  from labels_distinct_parts [OF d [unfolded sp] this] lx show False by simp
qed

lemma podar_dropped:
  assumes sp: "rows (corregir_texto df) = pre @ (l, r) # post"
    and no: "l \<notin> fst ` set (rows (podar df))"
  shows "list_all (\<lambda>v. v = Absent) r
         \<or> (\<exists>ir \<in> set pre. snd ir = r \<and> fst ir \<in> fst ` set (rows (podar df)))"
proof (cases "list_ex (\<lambda>v. v \<noteq> Absent) r")
  case False
  then show ?thesis by (auto simp: list_all_iff list_ex_iff)
next
  case True
  let ?P = "\<lambda>ir. list_ex (\<lambda>v. v \<noteq> Absent) (snd ir)"
  let ?A = "drop_seen [] (filter ?P pre)"
  have seen: "r \<in> set (map snd (filter ?P pre))"
  proof (rule ccontr)
    assume "r \<notin> set (map snd (filter ?P pre))"
    with True have "(l, r) \<in> set (rows (podar df))"
      using podar_split [OF sp] by simp
    with no show False by force
  qed
  from drop_seen_covers [of "[]" "filter ?P pre"] seen
  have "r \<in> snd ` set ?A" by auto
  then obtain ir where ir: "ir \<in> set ?A" and r: "snd ir = r" by auto
  from ir set_drop_seen [of "[]" "filter ?P pre"] have "ir \<in> set pre" by auto
  moreover from ir have "ir \<in> set (rows (podar df))"
    using podar_split [OF sp] by simp
  ultimately show ?thesis using r by force
qed

section \<open>The library used for evaluation\<close>

lemma iso_fecha_month: "iso_fecha v = Some t \<Longrightarrow> 1 \<le> month t \<and> month t \<le> 12"
  by (cases v) (auto simp: Let_def split: if_splits)

lemma to_datetime_ok_biblioteca: "to_datetime_ok biblioteca"
  by (auto simp: to_datetime_ok_def biblioteca_def list_all_iff dest: iso_fecha_month
      split: option.splits)

lemmas evaluar =
  limpiar_datos_def podar_def corregir_texto_def select_dtypes_object_def columna_en_def
  corregir_paso_def getitem_def setitem_def encode_latin1_def cont_def ustr_def
  dropna_all_def drop_duplicates_def replace_dict_def replace_val_def centinelas_def
  renombrar_def normalizar_columna_def biblioteca_def strip_def ascii_lower_def
  ascii_isspace_def replace_char_def formatear_fechas_def fecha_publicacion_def

section \<open>Claims on the cleaning pipeline\<close>

lemma replace_val_centinelas_idem:
  "replace_val centinelas (replace_val centinelas v) = replace_val centinelas v"
  by (simp add: replace_val_def centinelas_def ustr_def)

text \<open>
  C9: replacing the sentinels \<open>"N/A"\<close>, \<open>"n/a"\<close> and the empty string by the missing
  value twice gives the same table as replacing them once.
\<close>

theorem sentinel_normalization_idempotent:
  "replace_dict centinelas (replace_dict centinelas df) = replace_dict centinelas df"
  by (simp add: replace_dict_def comp_def replace_val_centinelas_idem)

text \<open>
  C10: \<open>limpiar_datos\<close> keeps the order of the rows and, of rows with the same values,
  the first. The index labels of the result are a subsequence of those of the input; a
  row of the input whose values already occur in a row before it is not in the result;
  and a row that is not in the result is, once the encoding is repaired, entirely
  missing or equal in values to a row before it that is in the result.
\<close>

theorem limpiar_datos_orden:
  assumes ok: "to_datetime_ok L" and d: "distinct (map fst (rows df))"
    and out: "limpiar_datos L df = Inr out"
  shows "subseq (map fst (rows out)) (map fst (rows df))
     \<and> (\<forall>pre l r post. rows df = pre @ (l, r) # post \<and> r \<in> snd ` set pre
            \<longrightarrow> l \<notin> fst ` set (rows out))
     \<and> (\<forall>pre l r post. rows (corregir_texto df) = pre @ (l, r) # post
              \<and> l \<notin> fst ` set (rows out)
            \<longrightarrow> list_all (\<lambda>v. v = Absent) r
                \<or> (\<exists>ir \<in> set pre. snd ir = r \<and> fst ir \<in> fst ` set (rows out)))"
proof -
  have lab: "map fst (rows out) = map fst (rows (podar df))"
    by (rule limpiar_datos_labels [OF ok out])
  then have labs: "fst ` set (rows out) = fst ` set (rows (podar df))"
    by (metis set_map)
  obtain F where F: "rows (corregir_texto df) = map (\<lambda>ir. (fst ir, F (snd ir))) (rows df)"
    using corregir_texto_filas [of df] by blast
  have d': "distinct (map fst (rows (corregir_texto df)))"
    using d by (simp add: F comp_def)
  have 1: "subseq (map fst (rows out)) (map fst (rows df))"
    unfolding lab by (rule subseq_podar)
  have 2: "l \<notin> fst ` set (rows out)"
    if sp: "rows df = pre @ (l, r) # post" and dup: "r \<in> snd ` set pre" for pre l r post
  proof -
    have sp': "rows (corregir_texto df)
        = map (\<lambda>ir. (fst ir, F (snd ir))) pre @ (l, F r) # map (\<lambda>ir. (fst ir, F (snd ir))) post"
      by (simp add: F sp)
    from dup have "F r \<in> snd ` set (map (\<lambda>ir. (fst ir, F (snd ir))) pre)" by force
    from podar_later_copy [OF d' sp' this] show ?thesis by (simp add: labs)
  qed
  have 3: "list_all (\<lambda>v. v = Absent) r
                \<or> (\<exists>ir \<in> set pre. snd ir = r \<and> fst ir \<in> fst ` set (rows out))"
    if sp: "rows (corregir_texto df) = pre @ (l, r) # post"
      and no: "l \<notin> fst ` set (rows out)" for pre l r post
    using podar_dropped [OF sp no [unfolded labs]] by (simp add: labs)
  from 1 2 3 show ?thesis by blast
qed

theorem limpiar_datos_orden_witness:
  "to_datetime_ok biblioteca
   \<and> distinct (map fst (rows tabla_repetida))
   \<and> limpiar_datos biblioteca tabla_repetida =
       Inr \<lparr>columns = [ustr ''pais''],
            rows = [(0, [Str (ustr ''Chile'')]), (1, [Str (ustr ''Peru'')])]\<rparr>
   \<and> subseq [0, 1] (map fst (rows tabla_repetida))
   \<and> 2 \<notin> fst ` set [(0 :: nat, [Str (ustr ''Chile'')]), (1, [Str (ustr ''Peru'')])]"
proof -
  let ?out = "\<lparr>columns = [ustr ''pais''],
            rows = [(0, [Str (ustr ''Chile'')]), (1, [Str (ustr ''Peru'')])]\<rparr>"
  have d: "distinct (map fst (rows tabla_repetida))"
    by (simp add: tabla_repetida_def)
  have h: "limpiar_datos biblioteca tabla_repetida = Inr ?out"
    by (simp add: tabla_repetida_def evaluar)
  have sp: "rows tabla_repetida
      = [(0, [Str (ustr ''Chile'')]), (1, [Str (ustr ''Peru'')])] @ (2, [Str (ustr ''Chile'')]) # []"
    by (simp add: tabla_repetida_def)
  note t = limpiar_datos_orden [OF to_datetime_ok_biblioteca d h]
  from t have a: "subseq (map fst (rows ?out)) (map fst (rows tabla_repetida))" by blast
  from t have "\<forall>pre l r post. rows tabla_repetida = pre @ (l, r) # post \<and> r \<in> snd ` set pre
            \<longrightarrow> l \<notin> fst ` set (rows ?out)" by blast
  from this [rule_format, of "[(0, [Str (ustr ''Chile'')]), (1, [Str (ustr ''Peru'')])]"
      2 "[Str (ustr ''Chile'')]" "[]"] sp
  have b: "2 \<notin> fst ` set (rows ?out)" by simp
  from a b to_datetime_ok_biblioteca d h show ?thesis by simp
qed

section \<open>Claims on the encoding repair\<close>

lemma map_of_zip_set_other:
  "c \<noteq> col \<Longrightarrow>
   map_of (zip cols (map (\<lambda>p. if fst p = col then v else snd p) (zip cols r))) c
     = map_of (zip cols r) c"
proof (induction cols arbitrary: r)
  case Nil
  show ?case by simp
next
  case (Cons a cols)
  then show ?case by (cases r) auto
qed

lemma map_of_zip_set_same:
  "c \<in> set cols \<Longrightarrow> length r = length cols \<Longrightarrow>
   map_of (zip cols (map (\<lambda>p. if fst p = c then v else snd p) (zip cols r))) c = Some v"
proof (induction cols arbitrary: r)
  case Nil
  then show ?case by simp
next
  case (Cons a cols)
  then show ?case by (cases r) auto
qed

lemma map2_left_only:
  "length vs = length rs \<Longrightarrow> map2 (\<lambda>r v. g r) rs vs = map g rs"
  by (induction vs rs rule: list_induct2) auto

lemma map2_right_only:
  "length vs = length rs \<Longrightarrow> list_all P rs \<Longrightarrow> (\<And>r v. P r \<Longrightarrow> g r v = v)
     \<Longrightarrow> map2 g rs vs = vs"
  by (induction vs rs rule: list_induct2) auto

lemma getitem_setitem_other:
  assumes "col \<in> set (columns df)" and "length vs = length (rows df)" and "c \<noteq> col"
  shows "getitem (setitem df col vs) c = getitem df c"
proof -
  have "getitem (setitem df col vs) c
      = map2 (\<lambda>ir v. case map_of (zip (columns df) (snd ir)) c of Some w \<Rightarrow> w | None \<Rightarrow> Absent)
          (rows df) vs"
    using assms(1,3) by (simp add: getitem_def setitem_def map_of_zip_set_other split_def)
  also have "\<dots> = getitem df c"
    unfolding getitem_def by (rule map2_left_only [OF assms(2)])
  finally show ?thesis .
qed

lemma getitem_setitem_same:
  assumes "wf_table df" and "c \<in> set (columns df)" and "length vs = length (rows df)"
  shows "getitem (setitem df c vs) c = vs"
proof -
  have "getitem (setitem df c vs) c
      = map2 (\<lambda>ir v. case map_of (zip (columns df)
                 (map (\<lambda>p. if fst p = c then v else snd p) (zip (columns df) (snd ir)))) c of
                 Some w \<Rightarrow> w | None \<Rightarrow> Absent) (rows df) vs"
    using assms(2) by (simp add: getitem_def setitem_def split_def)
  also have "\<dots> = vs"
    by (rule map2_right_only [OF assms(3), where P = "\<lambda>ir. length (snd ir) = length (columns df)"])
       (use assms(1,2) in \<open>simp_all add: wf_table_def map_of_zip_set_same\<close>)
  finally show ?thesis .
qed

lemma wf_setitem_same:
  assumes "wf_table df" and "c \<in> set (columns df)"
  shows "wf_table (setitem df c vs)"
  using assms by (auto simp: wf_table_def setitem_def list_all_iff dest!: set_zip_leftD)

lemma columns_corregir_paso:
  "col \<in> set (columns df) \<Longrightarrow> columns (corregir_paso col df) = columns df"
  by (simp add: corregir_paso_def setitem_def split: sum.splits)

lemma wf_corregir_paso:
  "wf_table df \<Longrightarrow> col \<in> set (columns df) \<Longrightarrow> wf_table (corregir_paso col df)"
  by (simp add: corregir_paso_def wf_setitem_same split: sum.splits)

lemma getitem_corregir_paso_other:
  assumes "col \<in> set (columns df)" and "c \<noteq> col"
  shows "getitem (corregir_paso col df) c = getitem df c"
proof (cases "apply_series corregir (getitem df col)")
  case (Inl e)
  then show ?thesis by (simp add: corregir_paso_def)
next
  case (Inr s)
  from apply_series_length [OF Inr] have "length s = length (rows df)" by simp
  from getitem_setitem_other [OF assms(1) this assms(2)] Inr
  show ?thesis by (simp add: corregir_paso_def)
qed

lemma getitem_corregir_paso_same:
  assumes "wf_table df" and "count_list (columns df) c = 1"
  shows "getitem (corregir_paso c df) c = reparar (getitem df c)"
proof -
  from assms(2) have c: "c \<in> set (columns df)"
    by (metis count_notin zero_neq_one)
  show ?thesis
  proof (cases "apply_series corregir (getitem df c)")
    case (Inl e)
    with assms(2) show ?thesis by (simp add: corregir_paso_def reparar_def)
  next
    case (Inr s)
    from apply_series_length [OF Inr] have "length s = length (rows df)" by simp
    from getitem_setitem_same [OF assms(1) c this] Inr assms(2)
    show ?thesis by (simp add: corregir_paso_def reparar_def)
  qed
qed

lemma getitem_corregir_bucle:
  assumes "wf_table df" and "count_list (columns df) c = 1" and "set cols \<subseteq> set (columns df)"
  shows "getitem (corregir_bucle cols df) c = (reparar ^^ count_list cols c) (getitem df c)"
  using assms
proof (induction cols arbitrary: df)
  case Nil
  show ?case by simp
next
  case (Cons col cols)
  from Cons.prems have col: "col \<in> set (columns df)" by simp
  have wf': "wf_table (corregir_paso col df)"
    by (rule wf_corregir_paso [OF Cons.prems(1) col])
  have cs: "columns (corregir_paso col df) = columns df"
    by (rule columns_corregir_paso [OF col])
  from Cons.prems cs have
    IH: "getitem (corregir_bucle cols (corregir_paso col df)) c
           = (reparar ^^ count_list cols c) (getitem (corregir_paso col df) c)"
    by (intro Cons.IH [OF wf']) simp_all
  show ?case
  proof (cases "col = c")
    case True
    with IH getitem_corregir_paso_same [OF Cons.prems(1,2)]
    show ?thesis by (simp add: funpow_swap1)
  next
    case False
    then have "c \<noteq> col" by simp
    with IH getitem_corregir_paso_other [OF col this] False
    show ?thesis by simp
  qed
qed

lemma count_list_select:
  "count_list (map ((!) xs) (filter P [0..<length xs])) c \<le> count_list xs c"
proof (induction xs rule: rev_induct)
  case Nil
  show ?case by simp
next
  case (snoc x xs)
  have eq: "map ((!) (xs @ [x])) (filter P [0..<length xs]) = map ((!) xs) (filter P [0..<length xs])"
    by (rule map_cong) (auto simp: nth_append)
  have "count_list (map ((!) (xs @ [x])) (filter P [0..<length (xs @ [x])])) c
      = count_list (map ((!) xs) (filter P [0..<length xs])) c
        + count_list (if P (length xs) then [x] else []) c"
    by (simp add: eq count_list_append)
  also have "\<dots> \<le> count_list xs c + count_list [x] c"
    using snoc by (intro add_mono) auto
  finally show ?case by (simp add: count_list_append)
qed

lemma count_list_select_dtypes_object:
  "count_list (select_dtypes_object df) c \<le> count_list (columns df) c"
  unfolding select_dtypes_object_def by (rule count_list_select)

lemma reparar_cases:
  "reparar s = (if list_all (\<lambda>v. \<not> isl (corregir v)) s
                then map (\<lambda>v. projr (corregir v)) s else s)"
proof (cases "apply_series corregir s")
  case (Inl e)
  from apply_series_Inl [OF Inl] have "\<not> list_all (\<lambda>v. \<not> isl (corregir v)) s"
    by (auto simp: list_all_iff list_ex_iff)
  with Inl show ?thesis by (simp add: reparar_def)
next
  case (Inr s')
  from apply_series_Inr_map [OF Inr] Inr show ?thesis by (simp add: reparar_def)
qed

text \<open>
  C1, as the specification states it: the repair is applied value by value, so that a
  value whose reinterpretation fails is kept while the other values of its column are
  repaired. It fails: in the column below the first value reinterprets (to
  \<open>"Jose"\<close> with the accented letter of code point 233) and the second does not, and
  \<open>corregir_texto\<close> leaves both as they were, where the repair value by value changes
  the first.
\<close>

theorem reparacion_por_valor_counterexample:
  "getitem (corregir_texto tabla_mixta) (ustr ''nombre'')
     = [Str [74, 111, 115, 195, 169], Str [77, 97, 114, 237, 97]]
   \<and> map reparar_por_valor (getitem tabla_mixta (ustr ''nombre''))
     = [Str [74, 111, 115, 233], Str [77, 97, 114, 237, 97]]"
  by (simp add: tabla_mixta_def reparar_por_valor_def evaluar)

text \<open>
  C1, amended: the repair is applied column by column and never raises. In a frame
  whose rows have one value for each label, for a label that occurs once: when the
  column is one of the object columns and every string of it reinterprets (Latin-1
  bytes read as UTF-8), every string is replaced by its reinterpretation and the other
  values are kept; when the reinterpretation of any string fails, the whole column is
  kept as it was, so a column is never a mix of repaired and unrepaired values; and a
  column that is not an object column is kept.
\<close>

theorem corregir_texto_por_columna:
  assumes "wf_table df" and "count_list (columns df) c = 1"
  shows "(c \<in> set (select_dtypes_object df) \<longrightarrow>
            getitem (corregir_texto df) c =
              (if list_all (\<lambda>v. \<not> isl (corregir v)) (getitem df c)
               then map (\<lambda>v. projr (corregir v)) (getitem df c)
               else getitem df c))
       \<and> (c \<notin> set (select_dtypes_object df) \<longrightarrow>
            getitem (corregir_texto df) c = getitem df c)"
proof -
  note g = getitem_corregir_bucle [OF assms select_dtypes_object_subset [of df]]
  have le: "count_list (select_dtypes_object df) c \<le> 1"
    using count_list_select_dtypes_object [of df c] assms(2) by simp
  show ?thesis
  proof (intro conjI impI)
    assume "c \<in> set (select_dtypes_object df)"
    then have "count_list (select_dtypes_object df) c \<noteq> 0"
      by (simp add: count_list_0_iff)
    with le have "count_list (select_dtypes_object df) c = 1" by simp
    with g show "getitem (corregir_texto df) c =
              (if list_all (\<lambda>v. \<not> isl (corregir v)) (getitem df c)
               then map (\<lambda>v. projr (corregir v)) (getitem df c)
               else getitem df c)"
      by (simp add: corregir_texto_def reparar_cases)
  next
    assume "c \<notin> set (select_dtypes_object df)"
    then have "count_list (select_dtypes_object df) c = 0" by (simp add: count_list_0_iff)
    with g show "getitem (corregir_texto df) c = getitem df c"
      by (simp add: corregir_texto_def)
  qed
qed

theorem corregir_texto_por_columna_witness:
  "wf_table tabla_mixta
   \<and> count_list (columns tabla_mixta) (ustr ''nombre'') = 1
   \<and> ustr ''nombre'' \<in> set (select_dtypes_object tabla_mixta)
   \<and> getitem (corregir_texto tabla_mixta) (ustr ''nombre'')
       = [Str [74, 111, 115, 195, 169], Str [77, 97, 114, 237, 97]]
   \<and> wf_table tabla_reparable
   \<and> count_list (columns tabla_reparable) (ustr ''nombre'') = 1
   \<and> ustr ''nombre'' \<in> set (select_dtypes_object tabla_reparable)
   \<and> getitem (corregir_texto tabla_reparable) (ustr ''nombre'')
       = [Str [74, 111, 115, 233], Str [77, 97, 114, 237, 97]]"
proof -
  have w1: "wf_table tabla_mixta" by (simp add: tabla_mixta_def wf_table_def)
  have c1: "count_list (columns tabla_mixta) (ustr ''nombre'') = 1"
    by (simp add: tabla_mixta_def)
  have s1: "ustr ''nombre'' \<in> set (select_dtypes_object tabla_mixta)"
    by (simp add: tabla_mixta_def select_dtypes_object_def columna_en_def)
  have g1: "getitem tabla_mixta (ustr ''nombre'')
      = [Str [74, 111, 115, 195, 169], Str [77, 97, 114, 237, 97]]"
    by (simp add: tabla_mixta_def getitem_def)
  have w2: "wf_table tabla_reparable" by (simp add: tabla_reparable_def wf_table_def)
  have c2: "count_list (columns tabla_reparable) (ustr ''nombre'') = 1"
    by (simp add: tabla_reparable_def)
  have s2: "ustr ''nombre'' \<in> set (select_dtypes_object tabla_reparable)"
    by (simp add: tabla_reparable_def select_dtypes_object_def columna_en_def)
  have g2: "getitem tabla_reparable (ustr ''nombre'')
      = [Str [74, 111, 115, 195, 169], Str [77, 97, 114, 195, 173, 97]]"
    by (simp add: tabla_reparable_def getitem_def)
  from corregir_texto_por_columna [OF w1 c1] s1
  have r1: "getitem (corregir_texto tabla_mixta) (ustr ''nombre'')
       = [Str [74, 111, 115, 195, 169], Str [77, 97, 114, 237, 97]]"
    by (simp add: g1 encode_latin1_def cont_def)
  from corregir_texto_por_columna [OF w2 c2] s2
  have r2: "getitem (corregir_texto tabla_reparable) (ustr ''nombre'')
       = [Str [74, 111, 115, 233], Str [77, 97, 114, 237, 97]]"
    by (simp add: g2 encode_latin1_def cont_def)
  from w1 c1 s1 r1 w2 c2 s2 r2 show ?thesis by blast
qed

section \<open>Claims on the column names\<close>

lemma set_strip: "set (strip L s) \<subseteq> set s"
proof -
  have "set (rev (dropWhile (isspace L) (rev (dropWhile (isspace L) s))))
          \<subseteq> set (dropWhile (isspace L) s)"
    using set_dropWhileD [of _ "isspace L" "rev (dropWhile (isspace L) s)"] by auto
  also have "\<dots> \<subseteq> set s"
    using set_dropWhileD [of _ "isspace L" s] by auto
  finally show ?thesis by (simp add: strip_def)
qed

lemma lower_ascii_biblioteca_es: "lower_ascii biblioteca_es"
  by (simp add: lower_ascii_def biblioteca_es_def biblioteca_def)

lemma nombre_limpio_replace_char:
  "nombre_limpio (replace_char 32 95 s)
     \<longleftrightarrow> list_all (\<lambda>c. (97 \<le> c \<and> c \<le> 122) \<or> (48 \<le> c \<and> c \<le> 57) \<or> c = 95 \<or> c = 32) s"
  by (auto simp: nombre_limpio_def replace_char_def list_all_iff)

text \<open>
  C5, as the specification states it: every normalised name consists only of lowercase
  ASCII letters, digits and underscores. It fails: \<open>normalizar_columna\<close> removes
  combining marks and surrounding whitespace and replaces spaces, and has no step for
  any other character, so the hyphen of \<open>"Codigo-Pais"\<close> is in the result.
\<close>

theorem nombre_con_guion_counterexample:
  "normalizar_columna biblioteca (ustr ''Codigo-Pais'') = ustr ''codigo-pais''
   \<and> \<not> nombre_limpio (normalizar_columna biblioteca (ustr ''Codigo-Pais''))"
  by (simp add: normalizar_columna_def biblioteca_def strip_def ascii_lower_def
      ascii_isspace_def replace_char_def ustr_def nombre_limpio_def)

text \<open>
  C5, amended: the normalised name consists only of lowercase ASCII letters, digits and
  underscores exactly when the name as decomposed, freed of combining marks, lowercased
  and trimmed holds nothing but lowercase ASCII letters, digits, underscores and spaces.
  In particular it does for every raw name whose NFKD decomposition, with the combining
  marks removed, consists only of ASCII letters, digits, spaces and underscores, which
  includes accented names such as \<open>" PAIS Destino"\<close> written with an accented I.
\<close>

theorem normalizar_columna_limpio:
  "(nombre_limpio (normalizar_columna L nombre)
      \<longleftrightarrow> list_all (\<lambda>c. (97 \<le> c \<and> c \<le> 122) \<or> (48 \<le> c \<and> c \<le> 57) \<or> c = 95 \<or> c = 32)
            (strip L (lower L (filter (\<lambda>c. combining L c = 0) (normalize_NFKD L nombre)))))
   \<and> (lower_ascii L
        \<and> letras_digitos_espacios (filter (\<lambda>c. combining L c = 0) (normalize_NFKD L nombre))
        \<longrightarrow> nombre_limpio (normalizar_columna L nombre))"
proof (intro conjI impI)
  show iff: "nombre_limpio (normalizar_columna L nombre)
      \<longleftrightarrow> list_all (\<lambda>c. (97 \<le> c \<and> c \<le> 122) \<or> (48 \<le> c \<and> c \<le> 57) \<or> c = 95 \<or> c = 32)
            (strip L (lower L (filter (\<lambda>c. combining L c = 0) (normalize_NFKD L nombre))))"
    by (simp add: normalizar_columna_def Let_def nombre_limpio_replace_char)
  assume a: "lower_ascii L
        \<and> letras_digitos_espacios (filter (\<lambda>c. combining L c = 0) (normalize_NFKD L nombre))"
  define solo where "solo = filter (\<lambda>c. combining L c = 0) (normalize_NFKD L nombre)"
  from a have n: "letras_digitos_espacios solo" and L: "lower_ascii L"
    by (simp_all add: solo_def)
  from n have "list_all (\<lambda>c. c < 128) solo"
    by (auto simp: letras_digitos_espacios_def list_all_iff)
  with L have lo: "lower L solo = ascii_lower solo" by (simp add: lower_ascii_def)
  have "\<forall>c \<in> set (ascii_lower solo).
          (97 \<le> c \<and> c \<le> 122) \<or> (48 \<le> c \<and> c \<le> 57) \<or> c = 95 \<or> c = 32"
    using n by (auto simp: letras_digitos_espacios_def list_all_iff ascii_lower_def)
  with set_strip [of L "ascii_lower solo"]
  have "list_all (\<lambda>c. (97 \<le> c \<and> c \<le> 122) \<or> (48 \<le> c \<and> c \<le> 57) \<or> c = 95 \<or> c = 32)
          (strip L (lower L solo))"
    unfolding lo list_all_iff by blast
  with iff show "nombre_limpio (normalizar_columna L nombre)" by (simp add: solo_def)
qed

theorem normalizar_columna_limpio_witness:
  "lower_ascii biblioteca_es
   \<and> letras_digitos_espacios
       (filter (\<lambda>c. combining biblioteca_es c = 0)
          (normalize_NFKD biblioteca_es [32, 80, 65, 205, 83, 32, 68, 101, 115, 116, 105, 110, 111]))
   \<and> normalizar_columna biblioteca_es [32, 80, 65, 205, 83, 32, 68, 101, 115, 116, 105, 110, 111]
       = ustr ''pais_destino''
   \<and> nombre_limpio
       (normalizar_columna biblioteca_es
          [32, 80, 65, 205, 83, 32, 68, 101, 115, 116, 105, 110, 111])"
proof -
  have n: "letras_digitos_espacios
       (filter (\<lambda>c. combining biblioteca_es c = 0)
          (normalize_NFKD biblioteca_es [32, 80, 65, 205, 83, 32, 68, 101, 115, 116, 105, 110, 111]))"
    by (simp add: letras_digitos_espacios_def biblioteca_es_def descomponer_es_def
        combining_es_def)
  have e: "normalizar_columna biblioteca_es
        [32, 80, 65, 205, 83, 32, 68, 101, 115, 116, 105, 110, 111] = ustr ''pais_destino''"
    by (simp add: normalizar_columna_def biblioteca_es_def biblioteca_def descomponer_es_def
        combining_es_def strip_def ascii_lower_def ascii_isspace_def replace_char_def ustr_def)
  from normalizar_columna_limpio [of biblioteca_es
      "[32, 80, 65, 205, 83, 32, 68, 101, 115, 116, 105, 110, 111]"]
    lower_ascii_biblioteca_es n
  have "nombre_limpio
       (normalizar_columna biblioteca_es
          [32, 80, 65, 205, 83, 32, 68, 101, 115, 116, 105, 110, 111])" by blast
  with lower_ascii_biblioteca_es n e show ?thesis by blast
qed

section \<open>Claims on the dates\<close>

lemma map_of_zip_append_new:
  "length r = length cols \<Longrightarrow> c \<notin> set cols \<Longrightarrow>
   map_of (zip (cols @ [c]) (r @ [v])) c' = (if c' = c then Some v else map_of (zip cols r) c')"
proof (induction cols arbitrary: r)
  case Nil
  then show ?case by simp
next
  case (Cons a cols)
  then show ?case by (cases r) auto
qed

lemma getitem_setitem_new:
  assumes "wf_table df" and "c \<notin> set (columns df)" and "length vs = length (rows df)"
  shows "getitem (setitem df c vs) c' = (if c' = c then vs else getitem df c')"
proof -
  have "getitem (setitem df c vs) c'
      = map2 (\<lambda>ir v. case map_of (zip (columns df @ [c]) (snd ir @ [v])) c' of
                 Some w \<Rightarrow> w | None \<Rightarrow> Absent) (rows df) vs"
    using assms(2) by (simp add: getitem_def setitem_def split_def)
  also have "\<dots> = (if c' = c then vs else getitem df c')"
  proof (cases "c' = c")
    case True
    have "map2 (\<lambda>ir v. case map_of (zip (columns df @ [c]) (snd ir @ [v])) c of
                 Some w \<Rightarrow> w | None \<Rightarrow> Absent) (rows df) vs = vs"
      by (rule map2_right_only [OF assms(3), where P = "\<lambda>ir. length (snd ir) = length (columns df)"])
         (use assms(1,2) in \<open>simp_all add: wf_table_def map_of_zip_append_new
               del: zip_append map_of_append\<close>)
    with True show ?thesis by simp
  next
    case False
    have "map2 (\<lambda>ir v. case map_of (zip (columns df @ [c]) (snd ir @ [v])) c' of
                 Some w \<Rightarrow> w | None \<Rightarrow> Absent) (rows df) vs
        = map2 (\<lambda>ir v. case map_of (zip (columns df) (snd ir)) c' of
                 Some w \<Rightarrow> w | None \<Rightarrow> Absent) (rows df) vs"
      using assms(1,2) False
      by (intro map_cong refl)
         (auto simp: wf_table_def list_all_iff map_of_zip_append_new
               simp del: zip_append map_of_append dest!: set_zip_leftD)
    also have "\<dots> = getitem df c'"
      unfolding getitem_def by (rule map2_left_only [OF assms(3)])
    finally show ?thesis using False by simp
  qed
  finally show ?thesis .
qed

lemma getitem_setitem:
  assumes "wf_table df" and "length vs = length (rows df)"
  shows "getitem (setitem df c vs) c' = (if c' = c then vs else getitem df c')"
proof (cases "c \<in> set (columns df)")
  case True
  show ?thesis
  proof (cases "c' = c")
    case True
    with getitem_setitem_same [OF assms(1) \<open>c \<in> set (columns df)\<close> assms(2)] show ?thesis by simp
  next
    case False
    with getitem_setitem_other [OF True assms(2), of c'] show ?thesis by simp
  qed
next
  case False
  from getitem_setitem_new [OF assms(1) False assms(2)] show ?thesis .
qed

lemma length_rows_setitem:
  "length vs = length (rows df) \<Longrightarrow> length (rows (setitem df c vs)) = length (rows df)"
  using setitem_labels [of vs df c] by (metis length_map)

lemma meses_total:
  assumes "1 \<le> m" and "m \<le> 12"
  shows "\<exists>s. map_of meses m = Some s"
proof -
  from assms have "m = 1 \<or> m = 2 \<or> m = 3 \<or> m = 4 \<or> m = 5 \<or> m = 6 \<or> m = 7 \<or> m = 8 \<or> m = 9
      \<or> m = 10 \<or> m = 11 \<or> m = 12" by arith
  then show ?thesis by (auto simp: meses_def)
qed

lemma fecha_texto_a_celda_None: "fecha_texto (a_celda None) = Inr Absent"
  by (simp add: a_celda_def)

lemma fecha_texto_a_celda_Some:
  assumes "1 \<le> month x" and "month x \<le> 12"
  shows "\<exists>m. fecha_texto (a_celda (Some x))
            = Inr (Str (str_int (day x) @ ustr '' de '' @ m @ ustr '' de '' @ str_int (year x)))"
  using meses_total [OF assms] by (auto simp: a_celda_def)

lemma fecha_texto_marzo:
  "fecha_texto (Fecha (Timestamp 2021 3 15)) = Inr (Str (ustr ''15 de marzo de 2021''))"
  by (simp add: meses_def str_int_def digitos.simps ustr_def)

lemma fecha_texto_no_falla:
  assumes "case x of None \<Rightarrow> True | Some t \<Rightarrow> 1 \<le> month t \<and> month t \<le> 12"
  shows "\<not> isl (fecha_texto (a_celda x))"
proof (cases x)
  case None
  then show ?thesis by (simp add: fecha_texto_a_celda_None)
next
  case (Some t)
  with assms fecha_texto_a_celda_Some [of t] show ?thesis by auto
qed

lemma fecha_publicacion_no_fecha_texto: "ustr ''fecha_texto'' \<noteq> fecha_publicacion"
  by (simp add: fecha_publicacion_def ustr_def)

lemma formatear_fechas_columnas:
  assumes ok: "to_datetime_ok L" and wf: "wf_table df"
    and uniq: "count_list (columns df) fecha_publicacion = 1"
  shows "\<exists>out. formatear_fechas L df = Inr out
     \<and> getitem out fecha_publicacion = map a_celda (to_datetime L (getitem df fecha_publicacion))
     \<and> getitem out (ustr ''fecha_texto'')
         = map (\<lambda>x. projr (fecha_texto (a_celda x))) (to_datetime L (getitem df fecha_publicacion))"
proof -
  define td where "td = to_datetime L (getitem df fecha_publicacion)"
  define df1 where "df1 = setitem df fecha_publicacion (map a_celda td)"
  define textos where "textos = map (\<lambda>v. projr (fecha_texto v)) (map a_celda td)"
  from uniq have c: "fecha_publicacion \<in> set (columns df)"
    by (metis count_notin zero_neq_one)
  from ok have len: "length (map a_celda td) = length (rows df)"
    by (simp add: to_datetime_ok_def td_def)
  from ok have "list_all (\<lambda>x. case x of None \<Rightarrow> True | Some t \<Rightarrow> 1 \<le> month t \<and> month t \<le> 12) td"
    by (simp add: to_datetime_ok_def td_def)
  then have all: "list_all (\<lambda>v. \<not> isl (fecha_texto v)) (map a_celda td)"
    using fecha_texto_no_falla by (simp add: list_all_iff)
  have wf1: "wf_table df1"
    unfolding df1_def by (rule wf_setitem_same [OF wf c])
  have g1: "getitem df1 fecha_publicacion = map a_celda td"
    unfolding df1_def by (rule getitem_setitem_same [OF wf c len])
  have n1: "length (rows df1) = length (rows df)"
    unfolding df1_def by (rule length_rows_setitem [OF len])
  have ap: "apply_series fecha_texto (getitem df1 fecha_publicacion) = Inr textos"
    unfolding g1 textos_def by (rule apply_series_all [OF all])
  have lt: "length textos = length (rows df1)"
    by (simp add: textos_def n1 len [simplified])
  have out: "formatear_fechas L df = Inr (setitem df1 (ustr ''fecha_texto'') textos)"
    using c uniq ap by (simp add: formatear_fechas_def Let_def df1_def td_def)
  have "getitem (setitem df1 (ustr ''fecha_texto'') textos) fecha_publicacion = map a_celda td"
    using getitem_setitem [OF wf1 lt, of "ustr ''fecha_texto''" fecha_publicacion]
      fecha_publicacion_no_fecha_texto g1 by simp
  moreover have "getitem (setitem df1 (ustr ''fecha_texto'') textos) (ustr ''fecha_texto'')
      = map (\<lambda>x. projr (fecha_texto (a_celda x))) td"
    using getitem_setitem [OF wf1 lt, of "ustr ''fecha_texto''" "ustr ''fecha_texto''"]
    by (simp add: textos_def comp_def)
  ultimately show ?thesis using out unfolding td_def by blast
qed

lemma sublist_year: "sublist (str_int (year x)) (a @ m @ b @ str_int (year x))"
  unfolding sublist_def by (rule exI [of _ "a @ m @ b"], rule exI [of _ "[]"]) simp

text \<open>
  C4: in a frame whose rows have one value for each label and where the label
  \<open>fecha_publicacion\<close> occurs once, the date pass returns a frame and raises nothing;
  its \<open>fecha_publicacion\<close> column holds what \<open>pd.to_datetime\<close> made of the raw
  values, a Timestamp or the missing value; in every row the companion
  \<open>fecha_texto\<close> is missing exactly when the date is missing; where the date is a
  Timestamp the companion is a string that contains the year in decimal; and where the
  date is 2021-03-15, as for the raw value \<open>"2021-03-15"\<close>, the companion is
  \<open>"15 de marzo de 2021"\<close>.
\<close>

theorem formatear_fechas_companion:
  assumes ok: "to_datetime_ok L" and wf: "wf_table df"
    and uniq: "count_list (columns df) fecha_publicacion = 1"
  shows "\<exists>out. formatear_fechas L df = Inr out
     \<and> getitem out fecha_publicacion = map a_celda (to_datetime L (getitem df fecha_publicacion))
     \<and> (\<forall>k < length (rows df).
          (getitem out fecha_publicacion ! k = Absent
             \<longleftrightarrow> getitem out (ustr ''fecha_texto'') ! k = Absent)
          \<and> (\<forall>x. getitem out fecha_publicacion ! k = Fecha x \<longrightarrow>
                (\<exists>s. getitem out (ustr ''fecha_texto'') ! k = Str s
                     \<and> sublist (str_int (year x)) s))
          \<and> (getitem out fecha_publicacion ! k = Fecha (Timestamp 2021 3 15) \<longrightarrow>
                getitem out (ustr ''fecha_texto'') ! k = Str (ustr ''15 de marzo de 2021'')))"
proof -
  define td where "td = to_datetime L (getitem df fecha_publicacion)"
  from formatear_fechas_columnas [OF assms] obtain out where
    out: "formatear_fechas L df = Inr out"
    and gp: "getitem out fecha_publicacion = map a_celda td"
    and gt: "getitem out (ustr ''fecha_texto'') = map (\<lambda>x. projr (fecha_texto (a_celda x))) td"
    unfolding td_def by blast
  from ok have len: "length td = length (rows df)"
    by (simp add: to_datetime_ok_def td_def)
  from ok have val: "list_all (\<lambda>x. case x of None \<Rightarrow> True | Some t \<Rightarrow> 1 \<le> month t \<and> month t \<le> 12) td"
    by (simp add: to_datetime_ok_def td_def)
  have row: "(getitem out fecha_publicacion ! k = Absent
             \<longleftrightarrow> getitem out (ustr ''fecha_texto'') ! k = Absent)
          \<and> (\<forall>x. getitem out fecha_publicacion ! k = Fecha x \<longrightarrow>
                (\<exists>s. getitem out (ustr ''fecha_texto'') ! k = Str s
                     \<and> sublist (str_int (year x)) s))
          \<and> (getitem out fecha_publicacion ! k = Fecha (Timestamp 2021 3 15) \<longrightarrow>
                getitem out (ustr ''fecha_texto'') ! k = Str (ustr ''15 de marzo de 2021''))"
    if k: "k < length (rows df)" for k
  proof (cases "td ! k")
    case None
    with k len show ?thesis by (simp add: gp gt a_celda_def)
  next
    case (Some t)
    from val k len Some have "1 \<le> month t" "month t \<le> 12"
      by (auto simp: list_all_length split: option.splits)
    from fecha_texto_a_celda_Some [OF this] obtain m where
      m: "fecha_texto (a_celda (Some t))
            = Inr (Str (str_int (day t) @ ustr '' de '' @ m @ ustr '' de '' @ str_int (year t)))"
      by blast
    have p: "getitem out fecha_publicacion ! k = Fecha t"
      using k len Some by (simp add: gp a_celda_def)
    have q: "getitem out (ustr ''fecha_texto'') ! k
        = Str (str_int (day t) @ ustr '' de '' @ m @ ustr '' de '' @ str_int (year t))"
      using k len Some m by (simp add: gt)
    have s: "sublist (str_int (year t))
        (str_int (day t) @ ustr '' de '' @ m @ ustr '' de '' @ str_int (year t))"
      using sublist_year [of t "str_int (day t) @ ustr '' de ''" m "ustr '' de ''"] by simp
    have z: "getitem out (ustr ''fecha_texto'') ! k = Str (ustr ''15 de marzo de 2021'')"
      if "t = Timestamp 2021 3 15"
      using k len Some that fecha_texto_marzo by (simp add: gt a_celda_def)
    from p q s z show ?thesis by auto
  qed
  from out gp row show ?thesis unfolding td_def by blast
qed

theorem formatear_fechas_companion_witness:
  "to_datetime_ok biblioteca \<and> wf_table tabla_fechas
   \<and> count_list (columns tabla_fechas) fecha_publicacion = 1
   \<and> formatear_fechas biblioteca tabla_fechas =
       Inr \<lparr>columns = [ustr ''fecha_publicacion'', ustr ''fecha_texto''],
            rows = [(0, [Fecha (Timestamp 2021 3 15), Str (ustr ''15 de marzo de 2021'')]),
                    (1, [Absent, Absent])]\<rparr>
   \<and> (\<exists>out. formatear_fechas biblioteca tabla_fechas = Inr out
         \<and> getitem out fecha_publicacion ! 0 = Fecha (Timestamp 2021 3 15)
         \<and> getitem out (ustr ''fecha_texto'') ! 0 = Str (ustr ''15 de marzo de 2021'')
         \<and> getitem out fecha_publicacion ! 1 = Absent
         \<and> getitem out (ustr ''fecha_texto'') ! 1 = Absent)"
proof -
  have w: "wf_table tabla_fechas" by (simp add: tabla_fechas_def wf_table_def)
  have c: "count_list (columns tabla_fechas) fecha_publicacion = 1"
    by (simp add: tabla_fechas_def fecha_publicacion_def)
  have e: "formatear_fechas biblioteca tabla_fechas =
       Inr \<lparr>columns = [ustr ''fecha_publicacion'', ustr ''fecha_texto''],
            rows = [(0, [Fecha (Timestamp 2021 3 15), Str (ustr ''15 de marzo de 2021'')]),
                    (1, [Absent, Absent])]\<rparr>"
    by (simp add: tabla_fechas_def formatear_fechas_def fecha_publicacion_def getitem_def
        setitem_def biblioteca_def ustr_def a_celda_def numero_def dias_del_mes_def
        meses_def str_int_def digitos.simps Let_def)
  have td: "to_datetime biblioteca (getitem tabla_fechas fecha_publicacion)
      = [Some (Timestamp 2021 3 15), None]"
    by (simp add: tabla_fechas_def fecha_publicacion_def getitem_def biblioteca_def ustr_def
        numero_def dias_del_mes_def Let_def)
  have n: "length (rows tabla_fechas) = 2" by (simp add: tabla_fechas_def)
  from formatear_fechas_companion [OF to_datetime_ok_biblioteca w c] obtain out where
    o: "formatear_fechas biblioteca tabla_fechas = Inr out"
    and gp: "getitem out fecha_publicacion
        = map a_celda (to_datetime biblioteca (getitem tabla_fechas fecha_publicacion))"
    and r: "\<forall>k < length (rows tabla_fechas).
          (getitem out fecha_publicacion ! k = Absent
             \<longleftrightarrow> getitem out (ustr ''fecha_texto'') ! k = Absent)
          \<and> (\<forall>x. getitem out fecha_publicacion ! k = Fecha x \<longrightarrow>
                (\<exists>s. getitem out (ustr ''fecha_texto'') ! k = Str s
                     \<and> sublist (str_int (year x)) s))
          \<and> (getitem out fecha_publicacion ! k = Fecha (Timestamp 2021 3 15) \<longrightarrow>
                getitem out (ustr ''fecha_texto'') ! k = Str (ustr ''15 de marzo de 2021''))"
    by blast
  from gp td have p0: "getitem out fecha_publicacion ! 0 = Fecha (Timestamp 2021 3 15)"
    and p1: "getitem out fecha_publicacion ! 1 = Absent"
    by (simp_all add: a_celda_def)
  from r [rule_format, of 0] n p0
  have t0: "getitem out (ustr ''fecha_texto'') ! 0 = Str (ustr ''15 de marzo de 2021'')" by simp
  from r [rule_format, of 1] n p1
  have t1: "getitem out (ustr ''fecha_texto'') ! 1 = Absent" by simp
  from o p0 p1 t0 t1 to_datetime_ok_biblioteca w c e show ?thesis by blast
qed

section \<open>Claims on the paged fetcher\<close>

text \<open>
  When the pages \<open>ps\<close> arrive with status 200 and rows, and the request after them has
  another status, the loop ends with exactly those pages, in order of arrival, and the
  function returns what \<open>pd.concat\<close> makes of them: for pages with the same labels,
  their rows one page after the other.
\<close>

lemma descargar_bucle_paginas:
  assumes "\<forall>i < length ps. \<exists>r. get (offset + i * limit) = Inr r \<and> status_code r = 200
              \<and> read_csv r = Inr (ps ! i) \<and> \<not> df_empty (ps ! i)"
    and "get (offset + length ps * limit) = Inr r" and "status_code r \<noteq> 200"
  shows "descargar_bucle get offset all_data = Some (Inr (all_data @ ps))"
  using assms
proof (induction ps arbitrary: offset all_data)
  case Nil
  then show ?case by (subst descargar_bucle.simps) simp
next
  case (Cons p ps)
  from Cons.prems(1) [rule_format, of 0] obtain r0 where
    r0: "get offset = Inr r0" "status_code r0 = 200" "read_csv r0 = Inr p" "\<not> df_empty p"
    by auto
  have "\<forall>i < length ps. \<exists>r. get (offset + limit + i * limit) = Inr r \<and> status_code r = 200
              \<and> read_csv r = Inr (ps ! i) \<and> \<not> df_empty (ps ! i)"
  proof (intro allI impI)
    fix i assume "i < length ps"
    with Cons.prems(1) [rule_format, of "Suc i"] show "\<exists>r. get (offset + limit + i * limit) = Inr r \<and> status_code r = 200
              \<and> read_csv r = Inr (ps ! i) \<and> \<not> df_empty (ps ! i)"
      by (simp add: add.assoc)
  qed
  moreover from Cons.prems(2) have "get (offset + limit + length ps * limit) = Inr r"
    by (simp add: add.assoc)
  ultimately have "descargar_bucle get (offset + limit) (all_data @ [p])
      = Some (Inr ((all_data @ [p]) @ ps))"
    using Cons.prems(3) by (intro Cons.IH)
  with r0 show ?case by (subst descargar_bucle.simps) simp
qed

lemma descargar_paginas:
  assumes "\<forall>i < length ps. \<exists>r. get (i * limit) = Inr r \<and> status_code r = 200
              \<and> read_csv r = Inr (ps ! i) \<and> \<not> df_empty (ps ! i)"
    and "get (length ps * limit) = Inr r" and "status_code r \<noteq> 200"
  shows "descargar_datos_completos get = Some (pd_concat ps)"
  using descargar_bucle_paginas [of ps get 0 r "[]"] assms
  by (simp add: descargar_datos_completos_def)

lemma pd_concat_mismas_columnas:
  assumes "ps \<noteq> []" and "list_all (\<lambda>f. columns f = columns (hd ps)) ps"
  shows "\<exists>out. pd_concat ps = Inr out
           \<and> map snd (rows out) = concat (map (\<lambda>f. map snd (rows f)) ps)"
  using assms by (simp add: pd_concat_def Let_def)

text \<open>
  C6: a page request with a status other than 200 ends the pagination, and the function
  is to return the pages retrieved before it without raising. With one page or more
  retrieved it does (\<open>descargar_paginas\<close>). When the first request already fails there
  is no page, \<open>pd.concat\<close> receives the empty list and raises ValueError: the function
  raises where the claim promises a table.
\<close>

theorem descargar_primera_pagina_500:
  "descargar_datos_completos siempre_500 = Some (Inl (ValueError ''No objects to concatenate''))"
proof -
  have "descargar_bucle siempre_500 0 [] = Some (Inr [])"
    by (subst descargar_bucle.simps) (simp add: siempre_500_def)
  then show ?thesis by (simp add: descargar_datos_completos_def pd_concat_def)
qed

section \<open>Claims on the chart generator\<close>

lemma wf_setitem:
  assumes "wf_table df" and "length vs = length (rows df)"
  shows "wf_table (setitem df c vs)"
proof (cases "c \<in> set (columns df)")
  case True
  then show ?thesis by (rule wf_setitem_same [OF assms(1)])
next
  case False
  with assms(1) show ?thesis
    by (auto simp: wf_table_def setitem_def list_all_iff dest!: set_zip_leftD)
qed

lemma columns_setitem: "set (columns df) \<subseteq> set (columns (setitem df c vs))"
  by (auto simp: setitem_def)

lemma anio_no_fecha_publicacion: "ustr ''anio'' \<noteq> fecha_publicacion"
  by (simp add: fecha_publicacion_def ustr_def)

lemma grafico_anual_sin_columna:
  "fecha_publicacion \<notin> set (columns df) \<Longrightarrow> grafico_anual L df = Inr (df, Sin_columna)"
  by (simp add: grafico_anual_def)

lemma grafico_anual_efecto:
  assumes ok: "to_datetime_ok L" and wf: "wf_table df"
    and res: "grafico_anual L df = Inr (df', g)"
    and c: "fecha_publicacion \<in> set (columns df)"
  shows "map fst (rows df') = map fst (rows df)"
    and "set (columns df) \<subseteq> set (columns df')"
    and "c' \<noteq> fecha_publicacion \<Longrightarrow> c' \<noteq> ustr ''anio'' \<Longrightarrow> getitem df' c' = getitem df c'"
    and "getitem df' fecha_publicacion = map a_celda (to_datetime L (getitem df fecha_publicacion))"
    and "g \<noteq> Sin_datos \<Longrightarrow> getitem df' (ustr ''anio'') = map dt_year (getitem df' fecha_publicacion)"
proof -
  define fs where "fs = map a_celda (to_datetime L (getitem df fecha_publicacion))"
  define df1 where "df1 = setitem df fecha_publicacion fs"
  define df2 where "df2 = setitem df1 (ustr ''anio'') (map dt_year (getitem df1 fecha_publicacion))"
  from ok have len: "length fs = length (rows df)"
    by (simp add: to_datetime_ok_def fs_def)
  have wf1: "wf_table df1" unfolding df1_def by (rule wf_setitem [OF wf len])
  have l1: "map fst (rows df1) = map fst (rows df)"
    unfolding df1_def by (rule setitem_labels [OF len])
  have g1: "getitem df1 c' = (if c' = fecha_publicacion then fs else getitem df c')" for c'
    unfolding df1_def by (rule getitem_setitem [OF wf len])
  have len2: "length (map dt_year (getitem df1 fecha_publicacion)) = length (rows df1)" by simp
  have l2: "map fst (rows df2) = map fst (rows df)"
    unfolding df2_def using setitem_labels [OF len2] l1 by simp
  have g2: "getitem df2 c' = (if c' = ustr ''anio'' then map dt_year (getitem df1 fecha_publicacion)
                              else getitem df1 c')" for c'
    unfolding df2_def by (rule getitem_setitem [OF wf1 len2])
  have cs1: "set (columns df) \<subseteq> set (columns df1)" unfolding df1_def by (rule columns_setitem)
  have cs2: "set (columns df) \<subseteq> set (columns df2)"
    unfolding df2_def using cs1 columns_setitem [of df1] by blast
  from res c have cases: "(df' = df2 \<and> g \<noteq> Sin_datos) \<or> (df' = df1 \<and> g = Sin_datos)"
    by (auto simp: grafico_anual_def Let_def df1_def df2_def fs_def split: if_splits)
  from cases l1 l2 show "map fst (rows df') = map fst (rows df)" by auto
  from cases cs1 cs2 show "set (columns df) \<subseteq> set (columns df')" by auto
  from cases g1 g2 show "getitem df' c' = getitem df c'"
    if "c' \<noteq> fecha_publicacion" "c' \<noteq> ustr ''anio''" using that by auto
  from cases g1 g2 anio_no_fecha_publicacion
  show "getitem df' fecha_publicacion = map a_celda (to_datetime L (getitem df fecha_publicacion))"
    unfolding fs_def by auto
  from cases g1 g2 anio_no_fecha_publicacion
  show "getitem df' (ustr ''anio'') = map dt_year (getitem df' fecha_publicacion)"
    if "g \<noteq> Sin_datos" using that by auto
qed

lemma generar_visualizaciones_muestreada:
  assumes "rapido" and "50000 < length (rows (h ! df0))"
  shows "generar_visualizaciones L h df0 rapido =
     (case grafico_anual L (sample L 30000 42 (h ! df0)) of
        Inl e \<Rightarrow> Inl e
      | Inr (df', g3) \<Rightarrow>
          Inr (h @ [df'],
               \<lparr>top_paises = grafico_paises L (sample L 30000 42 (h ! df0)),
                distribucion_genero = grafico_genero L (sample L 30000 42 (h ! df0)),
                evolucion_anual = g3\<rparr>))"
  using assms by (simp add: generar_visualizaciones_def Let_def split: sum.splits prod.splits)

lemma generar_visualizaciones_completa:
  assumes "\<not> (rapido \<and> 50000 < length (rows (h ! df0)))"
  shows "generar_visualizaciones L h df0 rapido =
     (case grafico_anual L (h ! df0) of
        Inl e \<Rightarrow> Inl e
      | Inr (df', g3) \<Rightarrow>
          Inr (h[df0 := df'],
               \<lparr>top_paises = grafico_paises L (h ! df0),
                distribucion_genero = grafico_genero L (h ! df0),
                evolucion_anual = g3\<rparr>))"
  unfolding generar_visualizaciones_def if_not_P [OF assms]
  by (simp add: Let_def split: sum.splits prod.splits)

lemma columns_tabla_grande: "columns tabla_grande = [ustr ''pais'']"
  unfolding tabla_grande_def by (simp only: table.simps)

lemma length_tabla_grande: "length (rows tabla_grande) = 50001"
  unfolding tabla_grande_def by (simp only: table.simps length_map length_upt diff_zero)

lemma sample_ok_biblioteca: "sample_ok biblioteca"
  by (simp add: sample_ok_def biblioteca_def primeras_def)

lemma columns_muestra_grande:
  "columns (sample biblioteca 30000 42 tabla_grande) = [ustr ''pais'']"
  by (simp add: biblioteca_def primeras_def columns_tabla_grande)

text \<open>
  C7: with fast mode on and more than 50000 rows, \<open>generar_visualizaciones\<close> draws one
  sample, \<open>sample(30000, random_state=42)\<close>, which has 30000 rows, puts it in the
  store as one new frame, and computes the three charts from that frame; otherwise it
  computes the three charts from the frame it was given and creates no frame.
\<close>

theorem generar_visualizaciones_muestra:
  assumes "sample_ok L" and "df0 < length h"
  shows "(rapido \<and> 50000 < length (rows (h ! df0)) \<longrightarrow>
            length (rows (sample L 30000 42 (h ! df0))) = 30000
            \<and> (case grafico_anual L (sample L 30000 42 (h ! df0)) of
                 Inl e \<Rightarrow> generar_visualizaciones L h df0 rapido = Inl e
               | Inr (m', g3) \<Rightarrow>
                   generar_visualizaciones L h df0 rapido =
                     Inr (h @ [m'],
                          \<lparr>top_paises = grafico_paises L (sample L 30000 42 (h ! df0)),
                           distribucion_genero = grafico_genero L (sample L 30000 42 (h ! df0)),
                           evolucion_anual = g3\<rparr>)))
       \<and> (\<not> (rapido \<and> 50000 < length (rows (h ! df0))) \<longrightarrow>
            (case grafico_anual L (h ! df0) of
               Inl e \<Rightarrow> generar_visualizaciones L h df0 rapido = Inl e
             | Inr (m', g3) \<Rightarrow>
                 generar_visualizaciones L h df0 rapido =
                   Inr (h[df0 := m'],
                        \<lparr>top_paises = grafico_paises L (h ! df0),
                         distribucion_genero = grafico_genero L (h ! df0),
                         evolucion_anual = g3\<rparr>)))"
proof (intro conjI impI)
  assume a: "rapido \<and> 50000 < length (rows (h ! df0))"
  with assms(1) show "length (rows (sample L 30000 42 (h ! df0))) = 30000"
    by (simp add: sample_ok_def)
  from a generar_visualizaciones_muestreada [of rapido h df0 L]
  show "case grafico_anual L (sample L 30000 42 (h ! df0)) of
                 Inl e \<Rightarrow> generar_visualizaciones L h df0 rapido = Inl e
               | Inr (m', g3) \<Rightarrow>
                   generar_visualizaciones L h df0 rapido =
                     Inr (h @ [m'],
                          \<lparr>top_paises = grafico_paises L (sample L 30000 42 (h ! df0)),
                           distribucion_genero = grafico_genero L (sample L 30000 42 (h ! df0)),
                           evolucion_anual = g3\<rparr>)"
    by (simp split: sum.splits prod.splits)
next
  assume a: "\<not> (rapido \<and> 50000 < length (rows (h ! df0)))"
  from generar_visualizaciones_completa [OF a, of L]
  show "case grafico_anual L (h ! df0) of
               Inl e \<Rightarrow> generar_visualizaciones L h df0 rapido = Inl e
             | Inr (m', g3) \<Rightarrow>
                 generar_visualizaciones L h df0 rapido =
                   Inr (h[df0 := m'],
                        \<lparr>top_paises = grafico_paises L (h ! df0),
                         distribucion_genero = grafico_genero L (h ! df0),
                         evolucion_anual = g3\<rparr>)"
    by (simp split: sum.splits prod.splits)
qed

theorem generar_visualizaciones_muestra_witness:
  "sample_ok biblioteca \<and> (0 :: nat) < length [tabla_grande]
   \<and> 50000 < length (rows ([tabla_grande] ! 0))
   \<and> length (rows (sample biblioteca 30000 42 tabla_grande)) = 30000
   \<and> generar_visualizaciones biblioteca [tabla_grande] 0 True =
       Inr ([tabla_grande, sample biblioteca 30000 42 tabla_grande],
            \<lparr>top_paises = grafico_paises biblioteca (sample biblioteca 30000 42 tabla_grande),
             distribucion_genero = Sin_columna, evolucion_anual = Sin_columna\<rparr>)"
proof -
  have r: "(0 :: nat) < length [tabla_grande]" by simp
  have n: "50000 < length (rows ([tabla_grande] ! 0))" by (simp add: length_tabla_grande)
  have fp: "fecha_publicacion \<notin> set (columns (sample biblioteca 30000 42 tabla_grande))"
    by (simp add: columns_muestra_grande fecha_publicacion_def ustr_def)
  have ga: "grafico_anual biblioteca (sample biblioteca 30000 42 tabla_grande)
      = Inr (sample biblioteca 30000 42 tabla_grande, Sin_columna)"
    by (rule grafico_anual_sin_columna [OF fp])
  have gg: "grafico_genero biblioteca (sample biblioteca 30000 42 tabla_grande) = Sin_columna"
    by (simp add: grafico_genero_def columns_muestra_grande ustr_def)
  from generar_visualizaciones_muestra [OF sample_ok_biblioteca r, of True] n
  have "length (rows (sample biblioteca 30000 42 tabla_grande)) = 30000
    \<and> generar_visualizaciones biblioteca [tabla_grande] 0 True =
       Inr ([tabla_grande, sample biblioteca 30000 42 tabla_grande],
            \<lparr>top_paises = grafico_paises biblioteca (sample biblioteca 30000 42 tabla_grande),
             distribucion_genero = Sin_columna, evolucion_anual = Sin_columna\<rparr>)"
    by (simp add: ga gg)
  with sample_ok_biblioteca r n show ?thesis by blast
qed

lemma columns_setitem_eq:
  "columns (setitem df c vs) = (if c \<in> set (columns df) then columns df else columns df @ [c])"
  by (simp add: setitem_def)

lemma hay_fecha_valida:
  "0 < length (filter (\<lambda>v. v \<noteq> Absent) (map a_celda td)) \<longleftrightarrow> list_ex (\<lambda>x. x \<noteq> None) td"
proof -
  have "(\<exists>v \<in> set (map a_celda td). v \<noteq> Absent) \<longleftrightarrow> (\<exists>x \<in> set td. x \<noteq> None)"
    by (auto simp: a_celda_def split: option.splits)
  then show ?thesis
    unfolding length_greater_0_conv filter_empty_conv list_ex_iff by blast
qed

lemma grafico_anual_anio:
  assumes ok: "to_datetime_ok L" and wf: "wf_table df"
    and res: "grafico_anual L df = Inr (df', g)"
    and c: "fecha_publicacion \<in> set (columns df)"
  shows "list_ex (\<lambda>x. x \<noteq> None) (to_datetime L (getitem df fecha_publicacion)) \<Longrightarrow>
           columns df' = (if ustr ''anio'' \<in> set (columns df) then columns df
                          else columns df @ [ustr ''anio''])
           \<and> getitem df' (ustr ''anio'')
               = map dt_year (map a_celda (to_datetime L (getitem df fecha_publicacion)))"
    and "\<not> list_ex (\<lambda>x. x \<noteq> None) (to_datetime L (getitem df fecha_publicacion)) \<Longrightarrow>
           columns df' = columns df \<and> getitem df' (ustr ''anio'') = getitem df (ustr ''anio'')"
proof -
  define td where "td = to_datetime L (getitem df fecha_publicacion)"
  define fs where "fs = map a_celda td"
  define df1 where "df1 = setitem df fecha_publicacion fs"
  define df2 where "df2 = setitem df1 (ustr ''anio'') (map dt_year (getitem df1 fecha_publicacion))"
  from ok have len: "length fs = length (rows df)"
    by (simp add: to_datetime_ok_def fs_def td_def)
  have wf1: "wf_table df1" unfolding df1_def by (rule wf_setitem [OF wf len])
  have c1: "columns df1 = columns df" using c by (simp add: df1_def columns_setitem_eq)
  have g1: "getitem df1 c' = (if c' = fecha_publicacion then fs else getitem df c')" for c'
    unfolding df1_def by (rule getitem_setitem [OF wf len])
  have len2: "length (map dt_year (getitem df1 fecha_publicacion)) = length (rows df1)" by simp
  have g2: "getitem df2 c' = (if c' = ustr ''anio'' then map dt_year (getitem df1 fecha_publicacion)
                              else getitem df1 c')" for c'
    unfolding df2_def by (rule getitem_setitem [OF wf1 len2])
  have c2: "columns df2 = (if ustr ''anio'' \<in> set (columns df) then columns df
                          else columns df @ [ustr ''anio''])"
    by (simp add: df2_def columns_setitem_eq c1)
  have v: "0 < length (filter (\<lambda>v. v \<noteq> Absent) (getitem df1 fecha_publicacion))
           \<longleftrightarrow> list_ex (\<lambda>x. x \<noteq> None) td"
    using hay_fecha_valida [of td] by (simp add: g1 fs_def)
  from res c have r: "df' = (if list_ex (\<lambda>x. x \<noteq> None) td then df2 else df1)"
    using v by (auto simp: grafico_anual_def Let_def df1_def df2_def fs_def td_def
        split: if_splits)
  show "columns df' = (if ustr ''anio'' \<in> set (columns df) then columns df
                          else columns df @ [ustr ''anio''])
           \<and> getitem df' (ustr ''anio'')
               = map dt_year (map a_celda (to_datetime L (getitem df fecha_publicacion)))"
    if "list_ex (\<lambda>x. x \<noteq> None) (to_datetime L (getitem df fecha_publicacion))"
    using that r c2 g2 [of "ustr ''anio''"] g1 [of fecha_publicacion]
    by (simp add: td_def fs_def)
  show "columns df' = columns df \<and> getitem df' (ustr ''anio'') = getitem df (ustr ''anio'')"
    if "\<not> list_ex (\<lambda>x. x \<noteq> None) (to_datetime L (getitem df fecha_publicacion))"
    using that r c1 g1 [of "ustr ''anio''"] anio_no_fecha_publicacion
    by (simp add: td_def)
qed

text \<open>
  C8, as the specification states it: the table handed to \<open>generar_visualizaciones\<close>
  is the same after the call. It fails: without a sample, the third routine assigns
  to the caller's frame, and the clean table below comes back with a new column
  \<open>anio\<close>.
\<close>

theorem tabla_modificada_counterexample:
  "generar_visualizaciones biblioteca [tabla_limpia] 0 True =
   Inr ([\<lparr>columns = [ustr ''fecha_publicacion'', ustr ''fecha_texto'', ustr ''anio''],
          rows = [(0, [Fecha (Timestamp 2021 3 15), Str (ustr ''15 de marzo de 2021''),
                       Num 2021])]\<rparr>],
        \<lparr>top_paises = Sin_columna, distribucion_genero = Sin_columna,
         evolucion_anual = Guardado [(Num 2021, 1)]\<rparr>)
   \<and> [\<lparr>columns = [ustr ''fecha_publicacion'', ustr ''fecha_texto'', ustr ''anio''],
          rows = [(0, [Fecha (Timestamp 2021 3 15), Str (ustr ''15 de marzo de 2021''),
                       Num 2021])]\<rparr>] ! 0 \<noteq> tabla_limpia"
  by (simp add: generar_visualizaciones_def tabla_limpia_def grafico_paises_def
      grafico_genero_def grafico_anual_def fecha_publicacion_def getitem_def setitem_def
      biblioteca_def ustr_def a_celda_def contar_def sort_index_def Let_def)

text \<open>
  C8, amended: the table handed to \<open>generar_visualizaciones\<close> is unchanged by the call
  when the sample replaces it (fast mode and more than 50000 rows) or when it has no
  column \<open>fecha_publicacion\<close>. Otherwise the call overwrites \<open>fecha_publicacion\<close>
  with the dates that \<open>pd.to_datetime\<close> reads in it; when at least one of those dates
  is valid it sets the column \<open>anio\<close> to their years, appending the column if the
  table has none; and when no date is valid it adds no column and leaves \<open>anio\<close> as
  it was. In every case the rows keep their index labels and order, no column is
  removed, and every column other than \<open>fecha_publicacion\<close> and \<open>anio\<close> keeps its
  values.
\<close>

theorem generar_visualizaciones_efecto:
  assumes ok: "to_datetime_ok L" and ref: "df0 < length h" and wf: "wf_table (h ! df0)"
    and res: "generar_visualizaciones L h df0 rapido = Inr (h', g)"
  shows "((rapido \<and> 50000 < length (rows (h ! df0)))
            \<or> fecha_publicacion \<notin> set (columns (h ! df0)) \<longrightarrow> h' ! df0 = h ! df0)
     \<and> map fst (rows (h' ! df0)) = map fst (rows (h ! df0))
     \<and> set (columns (h ! df0)) \<subseteq> set (columns (h' ! df0))
     \<and> (\<forall>c. c \<noteq> fecha_publicacion \<and> c \<noteq> ustr ''anio''
            \<longrightarrow> getitem (h' ! df0) c = getitem (h ! df0) c)
     \<and> (\<not> (rapido \<and> 50000 < length (rows (h ! df0)))
          \<and> fecha_publicacion \<in> set (columns (h ! df0)) \<longrightarrow>
            getitem (h' ! df0) fecha_publicacion
              = map a_celda (to_datetime L (getitem (h ! df0) fecha_publicacion))
            \<and> (list_ex (\<lambda>x. x \<noteq> None) (to_datetime L (getitem (h ! df0) fecha_publicacion)) \<longrightarrow>
                 columns (h' ! df0)
                   = (if ustr ''anio'' \<in> set (columns (h ! df0)) then columns (h ! df0)
                      else columns (h ! df0) @ [ustr ''anio''])
                 \<and> getitem (h' ! df0) (ustr ''anio'')
                     = map dt_year
                         (map a_celda (to_datetime L (getitem (h ! df0) fecha_publicacion))))
            \<and> (\<not> list_ex (\<lambda>x. x \<noteq> None)
                    (to_datetime L (getitem (h ! df0) fecha_publicacion)) \<longrightarrow>
                 columns (h' ! df0) = columns (h ! df0)
                 \<and> getitem (h' ! df0) (ustr ''anio'') = getitem (h ! df0) (ustr ''anio'')))"
proof (cases "rapido \<and> 50000 < length (rows (h ! df0))")
  case True
  with res generar_visualizaciones_muestreada [of rapido h df0 L]
  obtain m' where "h' = h @ [m']"
    by (auto split: sum.splits prod.splits)
  with ref have "h' ! df0 = h ! df0" by (simp add: nth_append)
  with True show ?thesis by simp
next
  case False
  from res generar_visualizaciones_completa [OF False, of L]
  obtain m' where ga: "grafico_anual L (h ! df0) = Inr (m', evolucion_anual g)"
    and h': "h' = h[df0 := m']"
    by (auto split: sum.splits prod.splits)
  from h' ref have eq: "h' ! df0 = m'" by simp
  show ?thesis
  proof (cases "fecha_publicacion \<in> set (columns (h ! df0))")
    case no: False
    from grafico_anual_sin_columna [OF no, of L] ga have "m' = h ! df0" by simp
    with eq no show ?thesis by simp
  next
    case yes: True
    note e = grafico_anual_efecto [OF ok wf ga yes]
    note a = grafico_anual_anio [OF ok wf ga yes]
    from e(1) e(2) e(3) e(4) a(1) a(2) False yes show ?thesis unfolding eq by blast
  qed
qed

theorem generar_visualizaciones_efecto_witness:
  "to_datetime_ok biblioteca \<and> (0 :: nat) < length [tabla_limpia] \<and> wf_table ([tabla_limpia] ! 0)
   \<and> generar_visualizaciones biblioteca [tabla_limpia] 0 True =
       Inr ([\<lparr>columns = [ustr ''fecha_publicacion'', ustr ''fecha_texto'', ustr ''anio''],
              rows = [(0, [Fecha (Timestamp 2021 3 15), Str (ustr ''15 de marzo de 2021''),
                           Num 2021])]\<rparr>],
            \<lparr>top_paises = Sin_columna, distribucion_genero = Sin_columna,
             evolucion_anual = Guardado [(Num 2021, 1)]\<rparr>)
   \<and> getitem \<lparr>columns = [ustr ''fecha_publicacion'', ustr ''fecha_texto'', ustr ''anio''],
              rows = [(0, [Fecha (Timestamp 2021 3 15), Str (ustr ''15 de marzo de 2021''),
                           Num 2021])]\<rparr> (ustr ''fecha_texto'')
       = getitem tabla_limpia (ustr ''fecha_texto'')
   \<and> getitem \<lparr>columns = [ustr ''fecha_publicacion'', ustr ''fecha_texto'', ustr ''anio''],
              rows = [(0, [Fecha (Timestamp 2021 3 15), Str (ustr ''15 de marzo de 2021''),
                           Num 2021])]\<rparr> (ustr ''anio'')
       = [Num 2021]
   \<and> wf_table ([tabla_sin_fechas_validas] ! 0)
   \<and> generar_visualizaciones biblioteca [tabla_sin_fechas_validas] 0 True =
       Inr ([tabla_sin_fechas_validas],
            \<lparr>top_paises = Sin_columna, distribucion_genero = Sin_columna,
             evolucion_anual = Sin_datos\<rparr>)
   \<and> columns ([tabla_sin_fechas_validas] ! 0) = columns tabla_sin_fechas_validas"
proof -
  let ?t = "\<lparr>columns = [ustr ''fecha_publicacion'', ustr ''fecha_texto'', ustr ''anio''],
              rows = [(0, [Fecha (Timestamp 2021 3 15), Str (ustr ''15 de marzo de 2021''),
                           Num 2021])]\<rparr>"
  have r: "(0 :: nat) < length [tabla_limpia]" by simp
  have w: "wf_table ([tabla_limpia] ! 0)" by (simp add: tabla_limpia_def wf_table_def)
  have e: "generar_visualizaciones biblioteca [tabla_limpia] 0 True =
       Inr ([?t], \<lparr>top_paises = Sin_columna, distribucion_genero = Sin_columna,
             evolucion_anual = Guardado [(Num 2021, 1)]\<rparr>)"
    by (simp add: generar_visualizaciones_def tabla_limpia_def grafico_paises_def
      grafico_genero_def grafico_anual_def fecha_publicacion_def getitem_def setitem_def
      biblioteca_def ustr_def a_celda_def contar_def sort_index_def Let_def)
  have d: "ustr ''fecha_texto'' \<noteq> fecha_publicacion \<and> ustr ''fecha_texto'' \<noteq> ustr ''anio''"
    by (simp add: fecha_publicacion_def ustr_def)
  have small: "\<not> (True \<and> 50000 < length (rows ([tabla_limpia] ! 0)))
      \<and> fecha_publicacion \<in> set (columns ([tabla_limpia] ! 0))"
    by (simp add: tabla_limpia_def fecha_publicacion_def)
  have td: "to_datetime biblioteca (getitem tabla_limpia fecha_publicacion)
      = [Some (Timestamp 2021 3 15)]"
    by (simp add: tabla_limpia_def fecha_publicacion_def getitem_def biblioteca_def ustr_def)
  note t = generar_visualizaciones_efecto [OF to_datetime_ok_biblioteca r w e]
  from t have "\<forall>c. c \<noteq> fecha_publicacion \<and> c \<noteq> ustr ''anio''
            \<longrightarrow> getitem ([?t] ! 0) c = getitem ([tabla_limpia] ! 0) c" by blast
  from this [rule_format, OF d]
  have a: "getitem ?t (ustr ''fecha_texto'') = getitem tabla_limpia (ustr ''fecha_texto'')" by simp
  from t small have "list_ex (\<lambda>x. x \<noteq> None)
        (to_datetime biblioteca (getitem ([tabla_limpia] ! 0) fecha_publicacion)) \<longrightarrow>
      getitem ([?t] ! 0) (ustr ''anio'')
        = map dt_year (map a_celda
            (to_datetime biblioteca (getitem ([tabla_limpia] ! 0) fecha_publicacion)))"
    by blast
  then have b: "getitem ?t (ustr ''anio'') = [Num 2021]"
    by (simp add: td a_celda_def)
  have r2: "(0 :: nat) < length [tabla_sin_fechas_validas]" by simp
  have w2: "wf_table ([tabla_sin_fechas_validas] ! 0)"
    by (simp add: tabla_sin_fechas_validas_def wf_table_def)
  have e2: "generar_visualizaciones biblioteca [tabla_sin_fechas_validas] 0 True =
       Inr ([tabla_sin_fechas_validas],
            \<lparr>top_paises = Sin_columna, distribucion_genero = Sin_columna,
             evolucion_anual = Sin_datos\<rparr>)"
    by (simp add: generar_visualizaciones_def tabla_sin_fechas_validas_def grafico_paises_def
      grafico_genero_def grafico_anual_def fecha_publicacion_def getitem_def setitem_def
      biblioteca_def ustr_def a_celda_def Let_def)
  have small2: "\<not> (True \<and> 50000 < length (rows ([tabla_sin_fechas_validas] ! 0)))
      \<and> fecha_publicacion \<in> set (columns ([tabla_sin_fechas_validas] ! 0))"
    by (simp add: tabla_sin_fechas_validas_def fecha_publicacion_def)
  have td2: "\<not> list_ex (\<lambda>x. x \<noteq> None)
      (to_datetime biblioteca (getitem ([tabla_sin_fechas_validas] ! 0) fecha_publicacion))"
    by (simp add: tabla_sin_fechas_validas_def fecha_publicacion_def getitem_def biblioteca_def
        ustr_def)
  from generar_visualizaciones_efecto [OF to_datetime_ok_biblioteca r2 w2 e2] small2 td2
  have c: "columns ([tabla_sin_fechas_validas] ! 0) = columns tabla_sin_fechas_validas"
    by simp
  from to_datetime_ok_biblioteca r w e a b w2 e2 c show ?thesis by blast
qed

section \<open>Claims on the rows of the clean table\<close>

text \<open>
  Each row of the result, written from the row of the pruned table it comes from: the
  sentinels replaced, and, when the renamed labels have \<open>fecha_publicacion\<close>, the date
  that \<open>pd.to_datetime\<close> read in that column and its text in \<open>fecha_texto\<close>.
\<close>

lemma wf_corregir_bucle:
  "wf_table df \<Longrightarrow> set cols \<subseteq> set (columns df) \<Longrightarrow> wf_table (corregir_bucle cols df)"
proof (induction cols arbitrary: df)
  case Nil
  then show ?case by simp
next
  case (Cons col cols)
  from Cons.prems have col: "col \<in> set (columns df)" by simp
  have "wf_table (corregir_paso col df)" by (rule wf_corregir_paso [OF Cons.prems(1) col])
  moreover have "set cols \<subseteq> set (columns (corregir_paso col df))"
    using Cons.prems(2) columns_corregir_paso [OF col] by simp
  ultimately show ?case using Cons.IH by simp
qed

lemma wf_corregir_texto: "wf_table df \<Longrightarrow> wf_table (corregir_texto df)"
  unfolding corregir_texto_def
  by (rule wf_corregir_bucle [OF _ select_dtypes_object_subset])

lemma columns_podar: "columns (podar df) = columns df"
  using corregir_texto_filas [of df]
  by (auto simp: podar_def drop_duplicates_def dropna_all_def)

lemma wf_podar:
  assumes "wf_table df"
  shows "wf_table (podar df)"
proof -
  have "set (rows (podar df)) \<subseteq> set (rows (corregir_texto df))"
    unfolding rows_podar using set_drop_seen [of "[]"] by fastforce
  moreover have "columns (podar df) = columns (corregir_texto df)"
    by (simp add: podar_def drop_duplicates_def dropna_all_def)
  ultimately show ?thesis
    using wf_corregir_texto [OF assms] by (auto simp: wf_table_def list_all_iff)
qed

lemma rows_setitem_nth:
  assumes "length vs = length (rows df)" and "k < length (rows df)"
  shows "rows (setitem df c vs) ! k =
     (fst (rows df ! k),
      if c \<in> set (columns df)
      then map2 (\<lambda>c' x. if c' = c then vs ! k else x) (columns df) (snd (rows df ! k))
      else snd (rows df ! k) @ [vs ! k])"
  using assms by (simp add: setitem_def)

lemma map2_map2:
  "map2 f cs (map2 g cs r) = map2 (\<lambda>c v. f c (g c v)) cs r"
proof (induction cs arbitrary: r)
  case Nil
  show ?case by simp
next
  case (Cons c cs)
  show ?case by (cases r) (simp_all add: Cons.IH)
qed

lemma map2_map_snd:
  "map2 g cs (map h r) = map2 (\<lambda>c v. g c (h v)) cs r"
proof (induction cs arbitrary: r)
  case Nil
  show ?case by simp
next
  case (Cons c cs)
  show ?case by (cases r) (simp_all add: Cons.IH)
qed

lemma formatear_fechas_forma:
  assumes res: "formatear_fechas L s = Inr out" and c: "fecha_publicacion \<in> set (columns s)"
  shows "out = setitem
                 (setitem s fecha_publicacion
                    (map a_celda (to_datetime L (getitem s fecha_publicacion))))
                 (ustr ''fecha_texto'')
                 (map (\<lambda>v. projr (fecha_texto v))
                    (getitem (setitem s fecha_publicacion
                       (map a_celda (to_datetime L (getitem s fecha_publicacion))))
                       fecha_publicacion))"
    and "count_list (columns s) fecha_publicacion = 1"
proof -
  from res c have n: "\<not> 1 < count_list (columns s) fecha_publicacion"
    by (auto simp: formatear_fechas_def split: if_splits)
  from c have "count_list (columns s) fecha_publicacion \<noteq> 0" by (simp add: count_list_0_iff)
  with n show "count_list (columns s) fecha_publicacion = 1" by simp
  from res c n obtain textos where
    t: "apply_series fecha_texto (getitem (setitem s fecha_publicacion
          (map a_celda (to_datetime L (getitem s fecha_publicacion)))) fecha_publicacion)
        = Inr textos"
    and o: "out = setitem (setitem s fecha_publicacion
          (map a_celda (to_datetime L (getitem s fecha_publicacion))))
          (ustr ''fecha_texto'') textos"
    by (auto simp: formatear_fechas_def Let_def split: if_splits sum.splits)
  from apply_series_Inr_map [OF t] o
  show "out = setitem
                 (setitem s fecha_publicacion
                    (map a_celda (to_datetime L (getitem s fecha_publicacion))))
                 (ustr ''fecha_texto'')
                 (map (\<lambda>v. projr (fecha_texto v))
                    (getitem (setitem s fecha_publicacion
                       (map a_celda (to_datetime L (getitem s fecha_publicacion))))
                       fecha_publicacion))"
    by simp
qed

lemma rows_centinelas_renombradas:
  "rows (renombrar L (replace_dict centinelas p))
     = map (\<lambda>ir. (fst ir, map (replace_val centinelas) (snd ir))) (rows p)"
  "columns (renombrar L (replace_dict centinelas p)) = map (normalizar_columna L) (columns p)"
  by (simp_all add: renombrar_def replace_dict_def)

lemma wf_centinelas_renombradas:
  "wf_table p \<Longrightarrow> wf_table (renombrar L (replace_dict centinelas p))"
  by (simp add: wf_table_def renombrar_def replace_dict_def list_all_iff)

lemma fila_de_salida:
  fixes L df
  defines "s \<equiv> renombrar L (replace_dict centinelas (podar df))"
    and "cs \<equiv> map (normalizar_columna L) (columns df)"
  assumes ok: "to_datetime_ok L" and wf: "wf_table df"
    and out: "limpiar_datos L df = Inr out"
    and k: "k < length (rows (podar df))"
  shows "snd (rows out ! k) =
     (if fecha_publicacion \<notin> set cs
      then map (replace_val centinelas) (snd (rows (podar df) ! k))
      else map2 (\<lambda>c v. if c = ustr ''fecha_texto''
                       then projr (fecha_texto
                              (a_celda (to_datetime L (getitem s fecha_publicacion) ! k)))
                       else if c = fecha_publicacion
                       then a_celda (to_datetime L (getitem s fecha_publicacion) ! k)
                       else replace_val centinelas v)
             cs (snd (rows (podar df) ! k))
           @ (if ustr ''fecha_texto'' \<in> set cs then []
              else [projr (fecha_texto
                      (a_celda (to_datetime L (getitem s fecha_publicacion) ! k)))]))"
proof -
  define pk where "pk = snd (rows (podar df) ! k)"
  define td where "td = to_datetime L (getitem s fecha_publicacion)"
  define D where "D = a_celda (td ! k)"
  define T where "T = projr (fecha_texto D)"
  have cols: "columns s = cs"
    by (simp add: s_def cs_def rows_centinelas_renombradas columns_podar)
  have rs: "rows s = map (\<lambda>ir. (fst ir, map (replace_val centinelas) (snd ir))) (rows (podar df))"
    by (simp add: s_def rows_centinelas_renombradas)
  have ks: "k < length (rows s)" using k by (simp add: rs)
  have rk: "snd (rows s ! k) = map (replace_val centinelas) pk"
    using k by (simp add: rs pk_def)
  have wfs: "wf_table s"
    unfolding s_def by (rule wf_centinelas_renombradas [OF wf_podar [OF wf]])
  from out have res: "formatear_fechas L s = Inr out" by (simp add: limpiar_datos_def s_def)
  show ?thesis
  proof (cases "fecha_publicacion \<in> set cs")
    case False
    with res cols have "out = s" by (simp add: formatear_fechas_def)
    with False rk show ?thesis by (simp add: pk_def)
  next
    case True
    define fs where "fs = map a_celda td"
    define df1 where "df1 = setitem s fecha_publicacion fs"
    define textos where "textos = map (\<lambda>v. projr (fecha_texto v)) (getitem df1 fecha_publicacion)"
    from True cols have c: "fecha_publicacion \<in> set (columns s)" by simp
    from formatear_fechas_forma(1) [OF res c]
    have o: "out = setitem df1 (ustr ''fecha_texto'') textos"
      by (simp add: df1_def fs_def td_def textos_def)
    from ok have len: "length fs = length (rows s)"
      by (simp add: fs_def td_def to_datetime_ok_def)
    have g1: "getitem df1 fecha_publicacion = fs"
      unfolding df1_def by (rule getitem_setitem_same [OF wfs c len])
    have n1: "length (rows df1) = length (rows s)"
      unfolding df1_def by (rule length_rows_setitem [OF len])
    have c1: "columns df1 = cs" using c cols by (simp add: df1_def setitem_def)
    have lt: "length textos = length (rows df1)" by (simp add: textos_def)
    have fk: "fs ! k = D" using ks len by (simp add: fs_def D_def)
    have tk: "textos ! k = T" using ks len fk by (simp add: textos_def g1 T_def)
    have r1: "snd (rows df1 ! k)
        = map2 (\<lambda>c' x. if c' = fecha_publicacion then D else x) cs
            (map (replace_val centinelas) pk)"
      using rows_setitem_nth [OF len ks, of fecha_publicacion] c cols rk fk
      by (simp add: df1_def)
    have r1': "snd (rows df1 ! k)
        = map2 (\<lambda>c v. if c = fecha_publicacion then D else replace_val centinelas v) cs pk"
      unfolding r1 by (rule map2_map_snd)
    have k1: "k < length (rows df1)" using ks n1 by simp
    have ro: "snd (rows out ! k)
        = (if ustr ''fecha_texto'' \<in> set cs
           then map2 (\<lambda>c' x. if c' = ustr ''fecha_texto'' then T else x) cs (snd (rows df1 ! k))
           else snd (rows df1 ! k) @ [T])"
      using rows_setitem_nth [OF lt k1, of "ustr ''fecha_texto''"] c1 tk by (simp add: o)
    have base: "map2 (\<lambda>c' x. if c' = ustr ''fecha_texto'' then T else x) cs (snd (rows df1 ! k))
        = map2 (\<lambda>c v. if c = ustr ''fecha_texto'' then T
                       else if c = fecha_publicacion then D
                       else replace_val centinelas v) cs pk"
      unfolding r1' by (rule map2_map2)
    have nuevo: "snd (rows df1 ! k)
        = map2 (\<lambda>c v. if c = ustr ''fecha_texto'' then T
                       else if c = fecha_publicacion then D
                       else replace_val centinelas v) cs pk"
      if "ustr ''fecha_texto'' \<notin> set cs"
    proof -
      have "map2 (\<lambda>c v. if c = fecha_publicacion then D else replace_val centinelas v) cs pk
          = map2 (\<lambda>c v. if c = ustr ''fecha_texto'' then T
                       else if c = fecha_publicacion then D
                       else replace_val centinelas v) cs pk"
      proof (intro map_cong refl)
        fix x assume "x \<in> set (zip cs pk)"
        then have "fst x \<in> set cs"
          using set_zip_leftD [of "fst x" "snd x" cs pk] by simp
        with that have "fst x \<noteq> ustr ''fecha_texto''" by auto
        then show "(case x of (c, v) \<Rightarrow>
                      if c = fecha_publicacion then D else replace_val centinelas v)
            = (case x of (c, v) \<Rightarrow>
                      if c = ustr ''fecha_texto'' then T
                      else if c = fecha_publicacion then D
                      else replace_val centinelas v)"
          by (cases x) simp
      qed
      then show ?thesis unfolding r1' .
    qed
    have final: "snd (rows out ! k)
        = map2 (\<lambda>c v. if c = ustr ''fecha_texto'' then T
                       else if c = fecha_publicacion then D
                       else replace_val centinelas v) cs pk
          @ (if ustr ''fecha_texto'' \<in> set cs then [] else [T])"
    proof (cases "ustr ''fecha_texto'' \<in> set cs")
      case si: True
      with ro base show ?thesis by simp
    next
      case no: False
      with ro nuevo [OF no] show ?thesis by simp
    qed
    from True final [unfolded T_def D_def td_def pk_def] show ?thesis
      by (simp only: not_True_eq_False if_False simp_thms)
  qed
qed

lemma replace_val_centinelas_Absent:
  "replace_val centinelas v = Absent
     \<longleftrightarrow> v = Absent \<or> v = Str (ustr ''N/A'') \<or> v = Str (ustr ''n/a'') \<or> v = Str []"
  by (simp add: replace_val_def centinelas_def ustr_def)

lemma a_celda_Absent: "a_celda x = Absent \<longleftrightarrow> x = None"
  by (simp add: a_celda_def split: option.splits)


lemma texto_de_ausente: "projr (fecha_texto Absent) = Absent"
  by simp

lemma length_fila_podar:
  assumes "wf_table df" and "k < length (rows (podar df))"
  shows "length (snd (rows (podar df) ! k)) = length (columns df)"
  using wf_podar [OF assms(1)] assms(2) columns_podar [of df]
  by (simp add: wf_table_def list_all_length)

lemma list_all_zip_snd:
  "length cs = length r \<Longrightarrow> list_all (\<lambda>cv. Q (snd cv)) (zip cs r) = list_all Q r"
  by (induction cs r rule: list_induct2) auto

lemma list_all_map2:
  "list_all P (map2 G cs r) \<longleftrightarrow> (\<forall>cv \<in> set (zip cs r). P (G (fst cv) (snd cv)))"
  by (simp add: list_all_iff split_def)

lemma fila_vacia_iff:
  assumes ok: "to_datetime_ok L" and wf: "wf_table df"
    and out: "limpiar_datos L df = Inr out"
    and k: "k < length (rows (podar df))"
  shows "list_all (\<lambda>v. v = Absent) (snd (rows out ! k))
         \<longleftrightarrow> list_all (\<lambda>cv. replace_val centinelas (snd cv) = Absent
                         \<or> (fecha_publicacion \<in> set (map (normalizar_columna L) (columns df))
                            \<and> (fst cv = fecha_publicacion \<or> fst cv = ustr ''fecha_texto'')))
               (zip (map (normalizar_columna L) (columns df)) (snd (rows (podar df) ! k)))
           \<and> (fecha_publicacion \<in> set (map (normalizar_columna L) (columns df)) \<longrightarrow>
                to_datetime L
                  (getitem (renombrar L (replace_dict centinelas (podar df))) fecha_publicacion)
                  ! k = None)"
proof -
  define cs where "cs = map (normalizar_columna L) (columns df)"
  define pk where "pk = snd (rows (podar df) ! k)"
  define x where "x = to_datetime L
      (getitem (renombrar L (replace_dict centinelas (podar df))) fecha_publicacion) ! k"
  have len: "length cs = length pk"
    using length_fila_podar [OF wf k] by (simp add: cs_def pk_def)
  note f = fila_de_salida [OF ok wf out k, folded cs_def pk_def x_def]
  show ?thesis
    unfolding cs_def [symmetric] pk_def [symmetric] x_def [symmetric]
  proof (cases "fecha_publicacion \<in> set cs")
    case False
    with f have "snd (rows out ! k) = map (replace_val centinelas) pk" by simp
    then have "list_all (\<lambda>v. v = Absent) (snd (rows out ! k))
        \<longleftrightarrow> list_all (\<lambda>v. replace_val centinelas v = Absent) pk"
      by (simp add: list_all_iff)
    also have "\<dots> \<longleftrightarrow> list_all (\<lambda>cv. replace_val centinelas (snd cv) = Absent) (zip cs pk)"
      using list_all_zip_snd [OF len, of "\<lambda>v. replace_val centinelas v = Absent"] by simp
    finally show "list_all (\<lambda>v. v = Absent) (snd (rows out ! k))
         \<longleftrightarrow> list_all (\<lambda>cv. replace_val centinelas (snd cv) = Absent
                         \<or> (fecha_publicacion \<in> set cs
                            \<and> (fst cv = fecha_publicacion \<or> fst cv = ustr ''fecha_texto'')))
               (zip cs pk)
           \<and> (fecha_publicacion \<in> set cs \<longrightarrow> x = None)"
      using False by simp
  next
    case True
    let ?G = "\<lambda>c v. if c = ustr ''fecha_texto'' then projr (fecha_texto (a_celda x))
                     else if c = fecha_publicacion then a_celda x
                     else replace_val centinelas v"
    from True f have X: "snd (rows out ! k)
        = map2 ?G cs pk
          @ (if ustr ''fecha_texto'' \<in> set cs then [] else [projr (fecha_texto (a_celda x))])"
      by simp
    from in_set_impl_in_set_zip1 [OF len True]
    obtain v where v: "(fecha_publicacion, v) \<in> set (zip cs pk)" by blast
    show "list_all (\<lambda>v. v = Absent) (snd (rows out ! k))
         \<longleftrightarrow> list_all (\<lambda>cv. replace_val centinelas (snd cv) = Absent
                         \<or> (fecha_publicacion \<in> set cs
                            \<and> (fst cv = fecha_publicacion \<or> fst cv = ustr ''fecha_texto'')))
               (zip cs pk)
           \<and> (fecha_publicacion \<in> set cs \<longrightarrow> x = None)"
    proof
      assume a: "list_all (\<lambda>v. v = Absent) (snd (rows out ! k))"
      then have "list_all (\<lambda>v. v = Absent) (map2 ?G cs pk)"
        unfolding X by simp
      then have all: "\<forall>cv \<in> set (zip cs pk). ?G (fst cv) (snd cv) = Absent"
        by (simp only: list_all_map2)
      from all v fecha_publicacion_no_fecha_texto have "a_celda x = Absent" by force
      then have x: "x = None" by (simp add: a_celda_Absent)
      have "replace_val centinelas (snd cv) = Absent
            \<or> (fst cv = fecha_publicacion \<or> fst cv = ustr ''fecha_texto'')"
        if "cv \<in> set (zip cs pk)" for cv
        using all that by (auto split: if_splits)
      with True x show "list_all (\<lambda>cv. replace_val centinelas (snd cv) = Absent
                         \<or> (fecha_publicacion \<in> set cs
                            \<and> (fst cv = fecha_publicacion \<or> fst cv = ustr ''fecha_texto'')))
               (zip cs pk)
           \<and> (fecha_publicacion \<in> set cs \<longrightarrow> x = None)"
        by (simp add: list_all_iff)
    next
      assume b: "list_all (\<lambda>cv. replace_val centinelas (snd cv) = Absent
                         \<or> (fecha_publicacion \<in> set cs
                            \<and> (fst cv = fecha_publicacion \<or> fst cv = ustr ''fecha_texto'')))
               (zip cs pk)
           \<and> (fecha_publicacion \<in> set cs \<longrightarrow> x = None)"
      with True have x: "x = None" by simp
      then have D: "a_celda x = Absent" and T: "projr (fecha_texto (a_celda x)) = Absent"
        by (simp_all add: a_celda_def)
      from b have "\<forall>cv \<in> set (zip cs pk). ?G (fst cv) (snd cv) = Absent"
        by (auto simp: list_all_iff D T)
      then have "list_all (\<lambda>v. v = Absent) (map2 ?G cs pk)"
        by (simp only: list_all_map2)
      with T show "list_all (\<lambda>v. v = Absent) (snd (rows out ! k))"
        unfolding X by simp
    qed
  qed
qed




lemmas evaluar_fechas =
  evaluar a_celda_def numero_def dias_del_mes_def meses_def str_int_def digitos.simps Let_def

text \<open>
  C2, as the specification states it: every row of the table that \<open>limpiar_datos\<close>
  returns has a field that is not missing. It fails, in two ways. A row whose only
  value is a date that cannot be read passes \<open>dropna\<close> and loses that value in the date
  pass: row 1 of the first table. A row of sentinels passes \<open>dropna\<close> and loses them
  when the sentinels are replaced, after the pruning: row 0 of the second table.
\<close>

theorem fila_vacia_counterexample:
  "limpiar_datos biblioteca tabla_fecha_ilegible =
     Inr \<lparr>columns = [ustr ''pais'', ustr ''fecha_publicacion'', ustr ''fecha_texto''],
          rows = [(0, [Str (ustr ''Chile''), Fecha (Timestamp 2021 3 15),
                       Str (ustr ''15 de marzo de 2021'')]),
                  (1, [Absent, Absent, Absent])]\<rparr>
   \<and> limpiar_datos biblioteca tabla_centinelas =
     Inr \<lparr>columns = [ustr ''pais'', ustr ''genero''],
          rows = [(0, [Absent, Absent]), (1, [Str (ustr ''Chile''), Str (ustr ''M'')])]\<rparr>"
  by (simp add: tabla_fecha_ilegible_def tabla_centinelas_def evaluar_fechas)

text \<open>
  C2, amended: every row of the table as pruned (after the repair, \<open>dropna\<close> and
  \<open>drop_duplicates\<close>) has a field that is not missing, and the rows of the result
  are those rows, position by position and with the same index labels, since nothing
  prunes afterwards. A row of the result is entirely missing exactly when every field
  of its pruned row is missing or one of the sentinels \<open>"N/A"\<close>, \<open>"n/a"\<close> and the
  empty string, leaving aside, in a table with a \<open>fecha_publicacion\<close> column, the
  fields of that column and of \<open>fecha_texto\<close>, and when in such a table no date is read
  in the row. Every other row of the result has a field that is not missing.
\<close>

theorem filas_vacias_de_la_salida:
  assumes ok: "to_datetime_ok L" and wf: "wf_table df"
    and out: "limpiar_datos L df = Inr out"
  shows "map fst (rows out) = map fst (rows (podar df))
     \<and> list_all (\<lambda>ir. list_ex (\<lambda>v. v \<noteq> Absent) (snd ir)) (rows (podar df))
     \<and> (\<forall>k < length (rows out).
          list_all (\<lambda>v. v = Absent) (snd (rows out ! k))
          \<longleftrightarrow> list_all (\<lambda>cv. replace_val centinelas (snd cv) = Absent
                          \<or> (fecha_publicacion \<in> set (map (normalizar_columna L) (columns df))
                             \<and> (fst cv = fecha_publicacion \<or> fst cv = ustr ''fecha_texto'')))
                (zip (map (normalizar_columna L) (columns df)) (snd (rows (podar df) ! k)))
            \<and> (fecha_publicacion \<in> set (map (normalizar_columna L) (columns df)) \<longrightarrow>
                 to_datetime L
                   (getitem (renombrar L (replace_dict centinelas (podar df))) fecha_publicacion)
                   ! k = None))"
proof -
  have lab: "map fst (rows out) = map fst (rows (podar df))"
    by (rule limpiar_datos_labels [OF ok out])
  then have n: "length (rows out) = length (rows (podar df))" by (metis length_map)
  from lab podar_no_vacias [of df] fila_vacia_iff [OF ok wf out] show ?thesis
    unfolding n by blast
qed

theorem filas_vacias_witness:
  "to_datetime_ok biblioteca \<and> wf_table tabla_fecha_ilegible
   \<and> limpiar_datos biblioteca tabla_fecha_ilegible =
       Inr \<lparr>columns = [ustr ''pais'', ustr ''fecha_publicacion'', ustr ''fecha_texto''],
            rows = [(0, [Str (ustr ''Chile''), Fecha (Timestamp 2021 3 15),
                         Str (ustr ''15 de marzo de 2021'')]),
                    (1, [Absent, Absent, Absent])]\<rparr>
   \<and> map fst (rows (podar tabla_fecha_ilegible)) = [0, 1]
   \<and> to_datetime biblioteca
        (getitem (renombrar biblioteca (replace_dict centinelas (podar tabla_fecha_ilegible)))
           fecha_publicacion) ! 1 = None"
proof -
  let ?out = "\<lparr>columns = [ustr ''pais'', ustr ''fecha_publicacion'', ustr ''fecha_texto''],
            rows = [(0, [Str (ustr ''Chile''), Fecha (Timestamp 2021 3 15),
                         Str (ustr ''15 de marzo de 2021'')]),
                    (1, [Absent, Absent, Absent])]\<rparr>"
  have w: "wf_table tabla_fecha_ilegible"
    by (simp add: tabla_fecha_ilegible_def wf_table_def)
  have h: "limpiar_datos biblioteca tabla_fecha_ilegible = Inr ?out"
    by (simp add: tabla_fecha_ilegible_def evaluar_fechas)
  have c: "fecha_publicacion
      \<in> set (map (normalizar_columna biblioteca) (columns tabla_fecha_ilegible))"
    by (simp add: tabla_fecha_ilegible_def evaluar)
  note t = filas_vacias_de_la_salida [OF to_datetime_ok_biblioteca w h]
  from t have l: "map fst (rows (podar tabla_fecha_ilegible)) = [0, 1]" by simp
  from t have "\<forall>k < length (rows ?out).
          list_all (\<lambda>v. v = Absent) (snd (rows ?out ! k))
          \<longrightarrow> (fecha_publicacion
                \<in> set (map (normalizar_columna biblioteca) (columns tabla_fecha_ilegible)) \<longrightarrow>
                 to_datetime biblioteca
                   (getitem (renombrar biblioteca
                      (replace_dict centinelas (podar tabla_fecha_ilegible))) fecha_publicacion)
                   ! k = None)"
    by blast
  from this [rule_format, of 1] c
  have "to_datetime biblioteca
        (getitem (renombrar biblioteca (replace_dict centinelas (podar tabla_fecha_ilegible)))
           fecha_publicacion) ! 1 = None"
    by simp
  with to_datetime_ok_biblioteca w h l show ?thesis by blast
qed




end
